theory Spec2Isabelle
  imports Complex_Main "HOL-Library.AList" "HOL-Library.Sublist"
begin

section \<open>The Intiface client (class IntifaceState): data model\<close>

text \<open>
  The development embeds the TypeScript class \<^verbatim>\<open>IntifaceState\<close>: a buttplug.io client over
  a raw WebSocket, with the presence state that follows the "working" signal.

  Conventions of the embedding.
  \<^item> A TypeScript interface is a record, with the field names of the source; an optional
    field (\<^verbatim>\<open>f?: T\<close>) has an option type, \<open>None\<close> standing for \<^verbatim>\<open>undefined\<close>.
  \<^item> JavaScript numbers that count or index (message ids, step counts, motor indices) are
    \<open>nat\<close>, device indices and working counts are \<open>int\<close>; a strength is a \<open>Number\<close>: a
    finite value (a real; the clamp uses comparisons alone, so no rounding is involved),
    an infinity or \<^verbatim>\<open>NaN\<close>.
  \<^item> A \<^verbatim>\<open>Map\<close> keyed by device index is an association list in insertion order; the table
    of pending requests is the set of its keys (the stored callbacks are the awaiting callers).
  \<^item> Field and function names that clash with constants of HOL carry a suffix.
\<close>

subsection \<open>Raw device messages (interface DeviceMessage)\<close>

text \<open>An entry of \<^verbatim>\<open>RotateCmd\<close> or \<^verbatim>\<open>LinearCmd\<close> is \<^verbatim>\<open>{ StepCount }\<close>; an entry of
  \<^verbatim>\<open>ScalarCmd\<close> has an \<^verbatim>\<open>ActuatorType\<close> as well.\<close>

record StepEntry =
  StepCount :: nat

record ScalarEntry = StepEntry +
  ActuatorType :: string

record DeviceMessagesT =
  ScalarCmd :: "ScalarEntry list option"
  RotateCmd :: "StepEntry list option"
  LinearCmd :: "StepEntry list option"

record DeviceMessage =
  DeviceIndex :: int
  DeviceName :: string
  DeviceMessages :: DeviceMessagesT

subsection \<open>Parsed devices (interface IntifaceDevice)\<close>

record MotorSpec =
  motors :: nat
  steps :: "nat list"

record Capabilities =
  vibrate_cap :: "MotorSpec option"
  rotate_cap :: "MotorSpec option"
  linear_cap :: "MotorSpec option"

record IntifaceDevice =
  index :: int
  name :: string
  capabilities :: Capabilities

text \<open>The expression \<^verbatim>\<open>g?.length ? { motors: g.length, steps: g.map(e => e.StepCount) } : undefined\<close>
  that \<^verbatim>\<open>parseDevice\<close> writes once per capability: an absent group and a group of length 0
  both give \<^verbatim>\<open>undefined\<close>.\<close>

definition motorSpec :: "'a StepEntry_scheme list option \<Rightarrow> MotorSpec option" where
  "motorSpec g =
     (case g of
        None \<Rightarrow> None
      | Some es \<Rightarrow>
          if length es \<noteq> 0 then Some \<lparr> motors = length es, steps = map StepCount es \<rparr>
          else None)"

definition parseDevice :: "DeviceMessage \<Rightarrow> IntifaceDevice" where
  "parseDevice d =
     (let vibrate = map_option (filter (\<lambda>s. ActuatorType s = ''Vibrate''))
                      (ScalarCmd (DeviceMessages d));
          rotate = RotateCmd (DeviceMessages d);
          linear = LinearCmd (DeviceMessages d)
      in \<lparr> index = DeviceIndex d,
           name = DeviceName d,
           capabilities =
             \<lparr> vibrate_cap = motorSpec vibrate,
               rotate_cap = motorSpec rotate,
               linear_cap = motorSpec linear \<rparr> \<rparr>)"

text \<open>The actuator groups of a raw message as the specification names them: the vibration
  group is the sub-list of scalar entries of actuator type "Vibrate", the other two are the
  command arrays themselves; an absent array is an empty group.\<close>

definition vibrateGroup :: "DeviceMessage \<Rightarrow> ScalarEntry list" where
  "vibrateGroup d =
     (case ScalarCmd (DeviceMessages d) of
        None \<Rightarrow> []
      | Some es \<Rightarrow> filter (\<lambda>s. ActuatorType s = ''Vibrate'') es)"

definition rotateGroup :: "DeviceMessage \<Rightarrow> StepEntry list" where
  "rotateGroup d = (case RotateCmd (DeviceMessages d) of None \<Rightarrow> [] | Some es \<Rightarrow> es)"

definition linearGroup :: "DeviceMessage \<Rightarrow> StepEntry list" where
  "linearGroup d = (case LinearCmd (DeviceMessages d) of None \<Rightarrow> [] | Some es \<Rightarrow> es)"

text \<open>What the specification asks of one capability field \<open>c\<close> against its group \<open>g\<close>:
  absent exactly when the group is empty, and otherwise counting the group and listing its
  step counts in order.\<close>

definition capabilityOf :: "MotorSpec option \<Rightarrow> 'a StepEntry_scheme list \<Rightarrow> bool" where
  "capabilityOf c g =
     (case c of
        None \<Rightarrow> g = []
      | Some spec \<Rightarrow> g \<noteq> [] \<and> motors spec = length g \<and> steps spec = map StepCount g)"

section \<open>The client object and its host\<close>

subsection \<open>Errors and results\<close>

text \<open>Every \<^verbatim>\<open>throw\<close> and every rejection of the source is a value of \<open>error\<close>.\<close>

datatype error =
    NotConnected                 \<comment> \<open>\<^verbatim>\<open>Error("Not connected")\<close>, from \<^verbatim>\<open>send\<close>\<close>
  | UrlNotSet                    \<comment> \<open>\<^verbatim>\<open>Error("WebSocket URL not set")\<close>\<close>
  | ConstructorError             \<comment> \<open>what \<^verbatim>\<open>new WebSocket(wsUrl)\<close> threw\<close>
  | ConnectionTimeout            \<comment> \<open>\<^verbatim>\<open>Error("Connection timeout")\<close>\<close>
  | WebSocketError               \<comment> \<open>\<^verbatim>\<open>Error("WebSocket error")\<close>\<close>
  | ServerError "string option"  \<comment> \<open>\<^verbatim>\<open>Error(content.ErrorMessage)\<close>\<close>
  | DeviceNotFound int           \<comment> \<open>\<^verbatim>\<open>Error(`Device ${i} not found`)\<close>\<close>
  | VibrationUnsupported int     \<comment> \<open>\<^verbatim>\<open>Error(`Device ${i} does not support vibration`)\<close>\<close>
  | TypeError                    \<comment> \<open>raised by the JavaScript runtime\<close>
  | SyntaxError                  \<comment> \<open>raised by \<^verbatim>\<open>JSON.parse\<close>\<close>

text \<open>The result of calling an \<^verbatim>\<open>async\<close> method and awaiting it while a given list of host
  events is delivered: it returned, it threw, or its promise is still unsettled when the
  events are used up (an awaited reply that never comes leaves it so for ever).\<close>

datatype 'a Outcome = Returned 'a | Threw error | Unsettled

subsection \<open>Numbers\<close>

text \<open>A JavaScript number where its value matters: finite, infinite or \<^verbatim>\<open>NaN\<close>. \<^verbatim>\<open>Math.min\<close>
  and \<^verbatim>\<open>Math.max\<close> give \<^verbatim>\<open>NaN\<close> as soon as one argument is \<^verbatim>\<open>NaN\<close>.\<close>

datatype Number = Finite real | PlusInfinity | MinusInfinity | NaN

fun Math_min :: "Number \<Rightarrow> Number \<Rightarrow> Number" where
  "Math_min NaN b = NaN"
| "Math_min a NaN = NaN"
| "Math_min MinusInfinity b = MinusInfinity"
| "Math_min a MinusInfinity = MinusInfinity"
| "Math_min PlusInfinity b = b"
| "Math_min a PlusInfinity = a"
| "Math_min (Finite x) (Finite y) = Finite (min x y)"

fun Math_max :: "Number \<Rightarrow> Number \<Rightarrow> Number" where
  "Math_max NaN b = NaN"
| "Math_max a NaN = NaN"
| "Math_max PlusInfinity b = PlusInfinity"
| "Math_max a PlusInfinity = PlusInfinity"
| "Math_max MinusInfinity b = b"
| "Math_max a MinusInfinity = a"
| "Math_max (Finite x) (Finite y) = Finite (max x y)"

subsection \<open>Incoming frames\<close>

text \<open>
  \<^verbatim>\<open>handleMessage\<close> reads \<^verbatim>\<open>JSON.parse(data)\<close> as \<^verbatim>\<open>Record<string, unknown>[]\<close>: a sequence
  of objects. An object is the list of its entries as \<^verbatim>\<open>Object.entries\<close> gives them, so
  it can have no key, one key or several. The content under a key carries its \<^verbatim>\<open>Id\<close>
  (\<open>MsgId\<close>; 0 on unsolicited server events) and the fields the handler casts it to:
  a \<^verbatim>\<open>DeviceMessage\<close>, a \<^verbatim>\<open>DeviceIndex\<close>, a \<^verbatim>\<open>Devices\<close> array, an \<^verbatim>\<open>ErrorMessage\<close>,
  a \<^verbatim>\<open>BatteryLevel\<close>, or none of these. \<open>NotJson\<close> is a text on which \<^verbatim>\<open>JSON.parse\<close>
  throws.
\<close>

datatype Body =
    DeviceBody DeviceMessage
  | IndexBody int
  | DevicesBody "DeviceMessage list"
  | ErrorBody string
  | BatteryBody Number
  | OtherBody

record Content =
  MsgId :: nat
  body :: Body

type_synonym Message = "(string \<times> Content) list"

datatype Frame = NotJson | Json "Message list"

text \<open>How a pending request is settled: \<^verbatim>\<open>pending.resolve(content)\<close> or
  \<^verbatim>\<open>pending.reject(new Error(...))\<close>.\<close>

datatype Settled = Resolved Content | Rejected error

subsection \<open>Outgoing frames\<close>

record ScalarSubcommand =
  Index :: nat
  Scalar :: Number
  ActuatorType_out :: string

text \<open>The payload objects the class passes to \<^verbatim>\<open>send\<close>; \<^verbatim>\<open>send\<close> adds the \<^verbatim>\<open>Id\<close> and wraps
  the whole as \<^verbatim>\<open>[{ [msgType]: { Id, ...payload } }]\<close>. A sent frame is recorded as
  (message type, id, payload).\<close>

datatype Payload =
    NoFields                                \<comment> \<open>\<^verbatim>\<open>{}\<close>\<close>
  | ClientInfo string nat                   \<comment> \<open>\<^verbatim>\<open>{ ClientName, MessageVersion }\<close>\<close>
  | DeviceTarget int                        \<comment> \<open>\<^verbatim>\<open>{ DeviceIndex }\<close>\<close>
  | ScalarList int "ScalarSubcommand list"  \<comment> \<open>\<^verbatim>\<open>{ DeviceIndex, Scalars }\<close>\<close>

type_synonym Outgoing = "string \<times> nat \<times> Payload"

subsection \<open>Console output\<close>

datatype LogLine =
    LogStartingVibration | LogStoppingVibration
  | LogStartingPresence int Number | LogStoppingPresence int
  | LogControlFailed error
  | LogDeviceAdded string int | LogDeviceRemoved string int | LogDeviceFound string int
  | LogScanningFinished
  | LogParseFailed error
  | LogConnecting string | LogConstructorError | LogConnected
  | LogHandshakeComplete | LogStartedScanning
  | LogWebSocketError | LogDisconnected

subsection \<open>The fields of the class\<close>

datatype ReadyState = CONNECTING | OPEN | CLOSING | CLOSED

text \<open>
  Every call of \<^verbatim>\<open>connect\<close> that runs the executor is a connect attempt; attempts are
  numbered from 0 in the order of creation, and the promise and the socket an attempt
  makes carry its number. \<open>ws\<close> is \<open>None\<close> for \<^verbatim>\<open>null\<close>, otherwise the number of the
  socket it refers to. \<open>connectionPromise\<close> is \<open>None\<close> for \<^verbatim>\<open>null\<close>, otherwise the number
  of the promise it refers to.
\<close>

record IntifaceState =
  ws :: "nat option"
  devices :: "(int \<times> IntifaceDevice) list"
  messageId :: nat
  pendingMessages :: "nat set"
  connectionPromise :: "nat option"
  wsUrl :: "string option"
  active :: bool
  device :: int
  strength :: Number
  since :: "string option"
  lastWorkingCount :: int

definition DEFAULT_STRENGTH :: Number where
  "DEFAULT_STRENGTH = Finite 0.15"

subsection \<open>What lives outside the fields\<close>

text \<open>Where the \<^verbatim>\<open>async\<close> handler \<^verbatim>\<open>ws.onopen\<close> of a connect attempt is suspended: not
  running, or awaiting the reply to the request of the given id.\<close>

datatype Stage =
    NotRunning
  | AwaitServerInfo nat
  | AwaitDeviceList nat
  | AwaitStartScanning nat

datatype PromiseState = Pending | Fulfilled | Failed error

text \<open>An invocation of the actuation layer by the presence controller.\<close>

datatype Call = CallVibrate int Number | CallStop int

text \<open>
  What one connect attempt owns: the promise its executor made (with the \<^verbatim>\<open>resolve\<close> and
  \<^verbatim>\<open>reject\<close> its handlers close over), the ready state of the socket it created (\<open>None\<close>
  when the executor made no socket), whether its 10 second timeout is armed, and the
  suspension point of the \<^verbatim>\<open>onopen\<close> handler of its socket.
\<close>

record Attempt =
  promise :: PromiseState
  socket :: "ReadyState option"
  timer :: bool
  stage :: Stage

text \<open>
  The object together with what its closures and its host hold:
  \<^item> \<open>attempts\<close>: the connect attempts made so far, oldest first;
  \<^item> \<open>sockets\<close>: how many times \<^verbatim>\<open>new WebSocket\<close> has succeeded;
  \<^item> \<open>sent\<close>: the frames given to \<^verbatim>\<open>ws.send\<close>, oldest first;
  \<^item> \<open>console\<close>: the lines written with \<^verbatim>\<open>console.log/warn/error\<close>;
  \<^item> \<open>invoked\<close>: the calls of \<^verbatim>\<open>vibrate\<close> and \<^verbatim>\<open>stop\<close> made so far (a trace, not a field
    of the source);
  \<^item> \<open>constructorThrows\<close>: whether the host's \<^verbatim>\<open>WebSocket\<close> constructor rejects \<open>wsUrl\<close>.
\<close>

record World = IntifaceState +
  attempts :: "Attempt list"
  sockets :: nat
  sent :: "Outgoing list"
  console :: "LogLine list"
  invoked :: "Call list"
  constructorThrows :: bool

text \<open>The object as the constructor leaves it, for a configured address.\<close>

definition initial :: "string \<Rightarrow> World" where
  "initial url =
     \<lparr> ws = None, devices = [], messageId = 1, pendingMessages = {},
       connectionPromise = None, wsUrl = Some url,
       active = False, device = 0, strength = Finite 0.15, since = None,
       lastWorkingCount = 0,
       attempts = [], sockets = 0,
       sent = [], console = [], invoked = [], constructorThrows = False \<rparr>"

text \<open>\<^verbatim>\<open>this.ws.readyState\<close>, \<open>None\<close> when \<^verbatim>\<open>this.ws\<close> is \<^verbatim>\<open>null\<close>; the promise, the timer and
  the handler of an attempt; and the update of one attempt.\<close>

definition readyState :: "World \<Rightarrow> ReadyState option" where
  "readyState w =
     (case ws w of
        None \<Rightarrow> None
      | Some k \<Rightarrow> if k < length (attempts w) then socket (attempts w ! k) else None)"

definition promiseState :: "World \<Rightarrow> nat \<Rightarrow> PromiseState" where
  "promiseState w p = (if p < length (attempts w) then promise (attempts w ! p) else Pending)"

definition timerArmed :: "World \<Rightarrow> nat \<Rightarrow> bool" where
  "timerArmed w k = (k < length (attempts w) \<and> timer (attempts w ! k))"

definition stageOf :: "World \<Rightarrow> nat \<Rightarrow> Stage" where
  "stageOf w k = (if k < length (attempts w) then stage (attempts w ! k) else NotRunning)"

definition hasSocket :: "World \<Rightarrow> nat \<Rightarrow> bool" where
  "hasSocket w k = (k < length (attempts w) \<and> socket (attempts w ! k) \<noteq> None)"

definition amend :: "nat \<Rightarrow> (Attempt \<Rightarrow> Attempt) \<Rightarrow> World \<Rightarrow> World" where
  "amend k f w = w\<lparr> attempts := (attempts w)[k := f (attempts w ! k)] \<rparr>"

definition say :: "LogLine \<Rightarrow> World \<Rightarrow> World" where
  "say l w = w\<lparr> console := console w @ [l] \<rparr>"

section \<open>Request correlation\<close>

definition nextId :: "World \<Rightarrow> nat \<times> World" where
  "nextId w = (messageId w, w\<lparr> messageId := messageId w + 1 \<rparr>)"

text \<open>\<^verbatim>\<open>send\<close>: the executor of the promise it returns. \<open>Inl\<close> is the immediate rejection;
  \<open>Inr\<close> gives the id under which the callbacks were stored.\<close>

definition send :: "World \<Rightarrow> string \<Rightarrow> Payload \<Rightarrow> error + (nat \<times> World)" where
  "send w msgType payload =
     (if ws w = None \<or> readyState w \<noteq> Some OPEN then Inl NotConnected
      else
        let (mid, w1) = nextId w
        in Inr (mid, w1\<lparr> pendingMessages := insert mid (pendingMessages w1),
                        sent := sent w1 @ [(msgType, mid, payload)] \<rparr>))"

text \<open>The pattern \<^verbatim>\<open>const pending = this.pendingMessages.get(id); if (pending) {
  this.pendingMessages.delete(id); pending.resolve/reject(...) }\<close>; the second component
  lists the settlements made.\<close>

definition settle :: "World \<Rightarrow> nat \<Rightarrow> Settled \<Rightarrow> World \<times> (nat \<times> Settled) list" where
  "settle w mid r =
     (if mid \<in> pendingMessages w
      then (w\<lparr> pendingMessages := pendingMessages w - {mid} \<rparr>, [(mid, r)])
      else (w, []))"

section \<open>Incoming frame routing\<close>

definition addDevice :: "(string \<Rightarrow> int \<Rightarrow> LogLine) \<Rightarrow> World \<Rightarrow> DeviceMessage \<Rightarrow> World" where
  "addDevice line w d =
     (let dev = parseDevice d
      in say (line (name dev) (index dev))
           (w\<lparr> devices := AList.update (index dev) dev (devices w) \<rparr>))"

text \<open>One iteration of the loop of \<^verbatim>\<open>handleMessage\<close>. \<open>Inl\<close> is an exception raised inside
  the \<^verbatim>\<open>try\<close>: destructuring \<^verbatim>\<open>Object.entries(msg)[0]\<close> of an object without keys, reading
  \<^verbatim>\<open>d.DeviceMessages.ScalarCmd\<close> of a content without \<^verbatim>\<open>DeviceMessages\<close>, iterating a
  \<^verbatim>\<open>Devices\<close> that is not there.\<close>

definition handleEntry :: "World \<Rightarrow> Message \<Rightarrow> error + (World \<times> (nat \<times> Settled) list)" where
  "handleEntry w msg =
     (case msg of
        [] \<Rightarrow> Inl TypeError
      | (type, content) # _ \<Rightarrow>
          let mid = MsgId content in
          if type = ''DeviceAdded'' then
            (case body content of
               DeviceBody d \<Rightarrow> Inr (addDevice LogDeviceAdded w d, [])
             | _ \<Rightarrow> Inl TypeError)
          else if type = ''DeviceRemoved'' then
            (case (case body content of
                     IndexBody i \<Rightarrow> Some i
                   | DeviceBody d \<Rightarrow> Some (DeviceIndex d)
                   | _ \<Rightarrow> None) of
               None \<Rightarrow> Inr (w, [])
             | Some i \<Rightarrow>
                 (case map_of (devices w) i of
                    None \<Rightarrow> Inr (w, [])
                  | Some dev \<Rightarrow>
                      Inr (say (LogDeviceRemoved (name dev) i)
                             (w\<lparr> devices := AList.delete i (devices w) \<rparr>), [])))
          else if type = ''DeviceList'' then
            (case body content of
               DevicesBody deviceList \<Rightarrow>
                 Inr (settle (foldl (addDevice LogDeviceFound) w deviceList) mid
                        (Resolved content))
             | _ \<Rightarrow> Inl TypeError)
          else if type = ''ScanningFinished'' then Inr (say LogScanningFinished w, [])
          else if type = ''Error'' then
            Inr (settle w mid
                   (Rejected (ServerError
                      (case body content of ErrorBody m \<Rightarrow> Some m | _ \<Rightarrow> None))))
          else if type = ''Ok'' \<or> type = ''ServerInfo'' then
            Inr (settle w mid (Resolved content))
          else Inr (w, []))"

text \<open>The \<^verbatim>\<open>for\<close> loop inside the \<^verbatim>\<open>try\<close>: the first exception ends the loop, is logged by
  the \<^verbatim>\<open>catch\<close>, and the effects of the earlier iterations stay.\<close>

fun handleEntries ::
  "World \<Rightarrow> Message list \<Rightarrow> (nat \<times> Settled) list \<Rightarrow> World \<times> (nat \<times> Settled) list" where
  "handleEntries w [] done = (w, done)"
| "handleEntries w (msg # rest) done =
     (case handleEntry w msg of
        Inl err \<Rightarrow> (say (LogParseFailed err) w, done)
      | Inr (w1, s) \<Rightarrow> handleEntries w1 rest (done @ s))"

definition handleMessage :: "World \<Rightarrow> Frame \<Rightarrow> World \<times> (nat \<times> Settled) list" where
  "handleMessage w data =
     (case data of
        NotJson \<Rightarrow> (say (LogParseFailed SyntaxError) w, [])
      | Json messages \<Rightarrow> handleEntries w messages [])"

section \<open>Connection manager\<close>

definition isConnected :: "World \<Rightarrow> bool" where
  "isConnected w = (ws w \<noteq> None \<and> readyState w = Some OPEN)"

definition getDevices :: "World \<Rightarrow> IntifaceDevice list" where
  "getDevices w = map snd (devices w)"

text \<open>\<^verbatim>\<open>resolve()\<close> and \<^verbatim>\<open>reject(err)\<close> of attempt \<open>k\<close>: they act on the promise of that
  attempt and do nothing once it is settled.\<close>

definition settleAttempt :: "nat \<Rightarrow> PromiseState \<Rightarrow> World \<Rightarrow> World" where
  "settleAttempt k r w =
     (if promiseState w k = Pending then amend k (\<lambda>a. a\<lparr> promise := r \<rparr>) w else w)"

definition resolveAttempt :: "nat \<Rightarrow> World \<Rightarrow> World" where
  "resolveAttempt k w = settleAttempt k Fulfilled w"

definition rejectAttempt :: "nat \<Rightarrow> error \<Rightarrow> World \<Rightarrow> World" where
  "rejectAttempt k err w = settleAttempt k (Failed err) w"

text \<open>What \<^verbatim>\<open>connect()\<close> hands back: it has returned already (its promise is fulfilled), or
  it returns the promise \<^verbatim>\<open>this.connectionPromise\<close> of the given number.\<close>

datatype ConnectReturn = Immediately | SharedPromise nat

text \<open>
  \<^verbatim>\<open>connect\<close> up to its \<^verbatim>\<open>return\<close>. The executor of the new promise runs inside the
  assignment \<^verbatim>\<open>this.connectionPromise = new Promise(...)\<close>, so the field refers to the new
  promise afterwards on every path, also where the executor has rejected it: with no
  address (\<^verbatim>\<open>!wsUrl\<close> holds for \<^verbatim>\<open>null\<close> and for the empty string), and when the
  constructor threw, where the executor's own \<^verbatim>\<open>this.connectionPromise = null\<close> is
  overwritten by the assignment. On these two paths no socket and no timer are made.
\<close>

definition connect :: "World \<Rightarrow> ConnectReturn \<times> World" where
  "connect w =
     (if ws w \<noteq> None \<and> readyState w = Some OPEN then (Immediately, w)
      else
        case connectionPromise w of
          Some p \<Rightarrow> (SharedPromise p, w)
        | None \<Rightarrow>
            let p = length (attempts w);
                unset = w\<lparr> attempts := attempts w @
                            [\<lparr> promise = Failed UrlNotSet, socket = None, timer = False,
                               stage = NotRunning \<rparr>],
                          connectionPromise := Some p \<rparr>
            in
            (SharedPromise p,
             (case wsUrl w of
                None \<Rightarrow> unset
              | Some url \<Rightarrow>
                  if url = [] then unset
                  else
                    let w1 = say (LogConnecting url) w in
                    if constructorThrows w1 then
                      (say LogConstructorError w1)
                        \<lparr> attempts := attempts w1 @
                            [\<lparr> promise = Failed ConstructorError, socket = None,
                               timer = False, stage = NotRunning \<rparr>],
                          connectionPromise := Some p \<rparr>
                    else
                      w1\<lparr> ws := Some p,
                          sockets := sockets w1 + 1,
                          attempts := attempts w1 @
                            [\<lparr> promise = Pending, socket = Some CONNECTING, timer = True,
                               stage = NotRunning \<rparr>],
                          connectionPromise := Some p \<rparr>)))"

text \<open>\<^verbatim>\<open>this.ws?.close()\<close>: it starts the closing of the socket \<^verbatim>\<open>this.ws\<close> refers to at that
  moment, unless that socket is closed already.\<close>

definition closeSocket :: "ReadyState option \<Rightarrow> ReadyState option" where
  "closeSocket s =
     (case s of
        None \<Rightarrow> None
      | Some CLOSED \<Rightarrow> Some CLOSED
      | Some _ \<Rightarrow> Some CLOSING)"

definition closeWs :: "World \<Rightarrow> World" where
  "closeWs w =
     (case ws w of
        None \<Rightarrow> w
      | Some j \<Rightarrow> amend j (\<lambda>a. a\<lparr> socket := closeSocket (socket a) \<rparr>) w)"

text \<open>The callback of \<^verbatim>\<open>setTimeout(..., 10000)\<close> of attempt \<open>k\<close>.\<close>

definition ontimeout :: "nat \<Rightarrow> World \<Rightarrow> World" where
  "ontimeout k w =
     (rejectAttempt k ConnectionTimeout
        (closeWs (amend k (\<lambda>a. a\<lparr> timer := False \<rparr>) w)))
       \<lparr> connectionPromise := None \<rparr>"

text \<open>One \<^verbatim>\<open>await this.send(...)\<close> of the \<^verbatim>\<open>onopen\<close> handler of attempt \<open>k\<close>: an immediate
  rejection goes to the \<^verbatim>\<open>catch\<close>, which rejects the attempt, and the handler ends with
  \<^verbatim>\<open>this.connectionPromise = null\<close>; otherwise the handler is suspended on the new id.\<close>

definition endHandler :: "nat \<Rightarrow> World \<Rightarrow> World" where
  "endHandler k w = (amend k (\<lambda>a. a\<lparr> stage := NotRunning \<rparr>) w)\<lparr> connectionPromise := None \<rparr>"

definition handlerSend ::
  "nat \<Rightarrow> World \<Rightarrow> string \<Rightarrow> Payload \<Rightarrow> (nat \<Rightarrow> Stage) \<Rightarrow> World" where
  "handlerSend k w msgType payload next =
     (case send w msgType payload of
        Inl err \<Rightarrow> endHandler k (rejectAttempt k err w)
      | Inr (mid, w1) \<Rightarrow> amend k (\<lambda>a. a\<lparr> stage := next mid \<rparr>) w1)"

definition onopen :: "nat \<Rightarrow> World \<Rightarrow> World" where
  "onopen k w =
     handlerSend k (say LogConnected (amend k (\<lambda>a. a\<lparr> timer := False \<rparr>) w))
       ''RequestServerInfo'' (ClientInfo ''Familiar'' 3) AwaitServerInfo"

text \<open>The \<^verbatim>\<open>onopen\<close> handler of attempt \<open>k\<close> resumed by the settlement of a pending request:
  it goes on only if that is the request it awaits. A rejection goes to the \<^verbatim>\<open>catch\<close>.\<close>

definition resume :: "nat \<Rightarrow> World \<Rightarrow> nat \<times> Settled \<Rightarrow> World" where
  "resume k w s =
     (case stageOf w k of
        NotRunning \<Rightarrow> w
      | AwaitServerInfo i \<Rightarrow>
          if fst s \<noteq> i then w
          else (case snd s of
                  Rejected err \<Rightarrow> endHandler k (rejectAttempt k err w)
                | Resolved _ \<Rightarrow>
                    handlerSend k (say LogHandshakeComplete w)
                      ''RequestDeviceList'' NoFields AwaitDeviceList)
      | AwaitDeviceList i \<Rightarrow>
          if fst s \<noteq> i then w
          else (case snd s of
                  Rejected err \<Rightarrow> endHandler k (rejectAttempt k err w)
                | Resolved _ \<Rightarrow>
                    handlerSend k w ''StartScanning'' NoFields AwaitStartScanning)
      | AwaitStartScanning i \<Rightarrow>
          if fst s \<noteq> i then w
          else (case snd s of
                  Rejected err \<Rightarrow> endHandler k (rejectAttempt k err w)
                | Resolved _ \<Rightarrow>
                    endHandler k (resolveAttempt k (say LogStartedScanning w))))"

text \<open>A settlement wakes the handlers that await it, oldest attempt first (request ids are
  never reused, so at most one handler awaits a given id).\<close>

definition resumeAll :: "World \<Rightarrow> nat \<times> Settled \<Rightarrow> World" where
  "resumeAll w s = foldl (\<lambda>w k. resume k w s) w [0 ..< length (attempts w)]"

definition onerror :: "nat \<Rightarrow> World \<Rightarrow> World" where
  "onerror k w =
     (rejectAttempt k WebSocketError
        (say LogWebSocketError (amend k (\<lambda>a. a\<lparr> timer := False \<rparr>) w)))
       \<lparr> connectionPromise := None \<rparr>"

definition onclose :: "World \<Rightarrow> World" where
  "onclose w =
     (say LogDisconnected w)\<lparr> ws := None, devices := [], pendingMessages := {} \<rparr>"

text \<open>
  The events the host delivers, one at a time: socket \<open>k\<close> opened, a text frame arrived on
  socket \<open>k\<close>, socket \<open>k\<close> reported an error, socket \<open>k\<close> closed, the closing handshake of
  socket \<open>k\<close> began (its ready state is \<^verbatim>\<open>CLOSING\<close> from then until it has closed; no handler
  runs), the 10 second timer of attempt \<open>k\<close> fired, and the timer of a caller sleeping in
  \<^verbatim>\<open>ensureConnected\<close> fired. An event of a socket runs the handler the attempt installed on
  that socket, whatever \<^verbatim>\<open>this.ws\<close> refers to by then; the host sets the ready state of the
  socket before an open and a close event. A socket that was never made has no events, and
  a cleared timer does not fire. The continuations a handler wakes run before the next event: \<open>dispatch\<close> runs
  the handler and then the \<^verbatim>\<open>onopen\<close> handlers the settlements resume, and it returns the
  settlements for a caller awaiting a reply.
\<close>

datatype Event =
    EvOpen nat | EvMessage nat Frame | EvError nat | EvClose nat | EvClosing nat
  | EvTimeout nat | EvTick

definition dispatch :: "World \<Rightarrow> Event \<Rightarrow> World \<times> (nat \<times> Settled) list" where
  "dispatch w ev =
     (case ev of
        EvOpen k \<Rightarrow>
          (if hasSocket w k then onopen k (amend k (\<lambda>a. a\<lparr> socket := Some OPEN \<rparr>) w) else w, [])
      | EvMessage k data \<Rightarrow>
          (if hasSocket w k then
             (let (w1, settled) = handleMessage w data
              in (foldl resumeAll w1 settled, settled))
           else (w, []))
      | EvError k \<Rightarrow> (if hasSocket w k then onerror k w else w, [])
      | EvClose k \<Rightarrow>
          (if hasSocket w k then onclose (amend k (\<lambda>a. a\<lparr> socket := Some CLOSED \<rparr>) w) else w, [])
      | EvClosing k \<Rightarrow>
          (if hasSocket w k then amend k (\<lambda>a. a\<lparr> socket := closeSocket (socket a) \<rparr>) w
           else w, [])
      | EvTimeout k \<Rightarrow> (if timerArmed w k then ontimeout k w else w, [])
      | EvTick \<Rightarrow> (w, []))"

text \<open>The state after a list of events with no caller waiting.\<close>

definition deliver :: "World \<Rightarrow> Event list \<Rightarrow> World" where
  "deliver w evs = foldl (\<lambda>w ev. fst (dispatch w ev)) w evs"

subsection \<open>Awaiting\<close>

text \<open>\<^verbatim>\<open>await\<close> of the promise \<open>p\<close> made by \<^verbatim>\<open>connect\<close>: events are delivered until it is
  settled.\<close>

fun awaitPromise :: "World \<Rightarrow> nat \<Rightarrow> Event list \<Rightarrow> unit Outcome \<times> World \<times> Event list" where
  "awaitPromise w p [] =
     (case promiseState w p of
        Fulfilled \<Rightarrow> (Returned (), w, [])
      | Failed err \<Rightarrow> (Threw err, w, [])
      | Pending \<Rightarrow> (Unsettled, w, []))"
| "awaitPromise w p (ev # evs) =
     (case promiseState w p of
        Fulfilled \<Rightarrow> (Returned (), w, ev # evs)
      | Failed err \<Rightarrow> (Threw err, w, ev # evs)
      | Pending \<Rightarrow> awaitPromise (fst (dispatch w ev)) p evs)"

text \<open>\<^verbatim>\<open>await\<close> of the promise of \<^verbatim>\<open>send\<close> for the request \<open>mid\<close>.\<close>

fun awaitReply :: "World \<Rightarrow> nat \<Rightarrow> Event list \<Rightarrow> Content Outcome \<times> World \<times> Event list" where
  "awaitReply w mid [] = (Unsettled, w, [])"
| "awaitReply w mid (ev # evs) =
     (case dispatch w ev of
        (w1, settled) \<Rightarrow>
          (case map_of settled mid of
             Some (Resolved content) \<Rightarrow> (Returned content, w1, evs)
           | Some (Rejected err) \<Rightarrow> (Threw err, w1, evs)
           | None \<Rightarrow> awaitReply w1 mid evs))"

text \<open>\<^verbatim>\<open>await this.send(msgType, payload)\<close>.\<close>

definition sendAwait ::
  "World \<Rightarrow> Event list \<Rightarrow> string \<Rightarrow> Payload \<Rightarrow> Content Outcome \<times> World \<times> Event list" where
  "sendAwait w evs msgType payload =
     (case send w msgType payload of
        Inl err \<Rightarrow> (Threw err, w, evs)
      | Inr (mid, w1) \<Rightarrow> awaitReply w1 mid evs)"

text \<open>\<^verbatim>\<open>await new Promise((resolve) => setTimeout(resolve, 500))\<close>: events are delivered
  until the caller's timer fires; \<open>False\<close> when the events end before it does.\<close>

fun sleep :: "World \<Rightarrow> Event list \<Rightarrow> bool \<times> World \<times> Event list" where
  "sleep w [] = (False, w, [])"
| "sleep w (ev # evs) =
     (case ev of
        EvTick \<Rightarrow> (True, w, evs)
      | _ \<Rightarrow> sleep (fst (dispatch w ev)) evs)"

text \<open>The loop of \<^verbatim>\<open>ensureConnected\<close>, with the number of iterations left.\<close>

fun waitForDevice :: "nat \<Rightarrow> World \<Rightarrow> Event list \<Rightarrow> unit Outcome \<times> World \<times> Event list" where
  "waitForDevice 0 w evs = (Returned (), w, evs)"
| "waitForDevice (Suc n) w evs =
     (if length (devices w) > 0 then (Returned (), w, evs)
      else
        case sleep w evs of
          (False, w1, evs1) \<Rightarrow> (Unsettled, w1, evs1)
        | (True, w1, evs1) \<Rightarrow> waitForDevice n w1 evs1)"

definition ensureConnected :: "World \<Rightarrow> Event list \<Rightarrow> unit Outcome \<times> World \<times> Event list" where
  "ensureConnected w evs =
     (if \<not> isConnected w then
        (case connect w of
           (Immediately, w1) \<Rightarrow> waitForDevice 10 w1 evs
         | (SharedPromise p, w1) \<Rightarrow>
             (case awaitPromise w1 p evs of
                (Returned _, w2, evs2) \<Rightarrow> waitForDevice 10 w2 evs2
              | (Threw err, w2, evs2) \<Rightarrow> (Threw err, w2, evs2)
              | (Unsettled, w2, evs2) \<Rightarrow> (Unsettled, w2, evs2)))
      else waitForDevice 10 w evs)"

section \<open>Actuation layer\<close>

text \<open>The loop of \<^verbatim>\<open>vibrate\<close> that pushes one entry per motor index \<open>0, ..., motorCount - 1\<close>.\<close>

definition scalarsFor :: "nat \<Rightarrow> Number \<Rightarrow> int option \<Rightarrow> ScalarSubcommand list" where
  "scalarsFor motorCount clampedStrength motor =
     map (\<lambda>i. \<lparr> Index = i,
                Scalar = (if motor = None \<or> motor = Some (int i) then clampedStrength
                          else Finite 0),
                ActuatorType_out = ''Vibrate'' \<rparr>)
       [0 ..< motorCount]"

definition vibrate ::
  "World \<Rightarrow> Event list \<Rightarrow> int \<Rightarrow> Number \<Rightarrow> int option \<Rightarrow> unit Outcome \<times> World \<times> Event list" where
  "vibrate w evs deviceIndex strength' motor =
     (case ensureConnected (w\<lparr> invoked := invoked w @ [CallVibrate deviceIndex strength'] \<rparr>) evs of
        (Threw err, w1, evs1) \<Rightarrow> (Threw err, w1, evs1)
      | (Unsettled, w1, evs1) \<Rightarrow> (Unsettled, w1, evs1)
      | (Returned _, w1, evs1) \<Rightarrow>
          (case map_of (devices w1) deviceIndex of
             None \<Rightarrow> (Threw (DeviceNotFound deviceIndex), w1, evs1)
           | Some dev \<Rightarrow>
               (case vibrate_cap (capabilities dev) of
                  None \<Rightarrow> (Threw (VibrationUnsupported deviceIndex), w1, evs1)
                | Some spec \<Rightarrow>
                    let clampedStrength = Math_max (Finite 0) (Math_min (Finite 1) strength');
                        motorCount = motors spec;
                        scalars = scalarsFor motorCount clampedStrength motor
                    in case sendAwait w1 evs1 ''ScalarCmd'' (ScalarList deviceIndex scalars) of
                         (Returned _, w2, evs2) \<Rightarrow> (Returned (), w2, evs2)
                       | (Threw err, w2, evs2) \<Rightarrow> (Threw err, w2, evs2)
                       | (Unsettled, w2, evs2) \<Rightarrow> (Unsettled, w2, evs2))))"

definition stop :: "World \<Rightarrow> Event list \<Rightarrow> int \<Rightarrow> unit Outcome \<times> World \<times> Event list" where
  "stop w evs deviceIndex =
     (case ensureConnected (w\<lparr> invoked := invoked w @ [CallStop deviceIndex] \<rparr>) evs of
        (Threw err, w1, evs1) \<Rightarrow> (Threw err, w1, evs1)
      | (Unsettled, w1, evs1) \<Rightarrow> (Unsettled, w1, evs1)
      | (Returned _, w1, evs1) \<Rightarrow>
          (case map_of (devices w1) deviceIndex of
             None \<Rightarrow> (Threw (DeviceNotFound deviceIndex), w1, evs1)
           | Some dev \<Rightarrow>
               (case sendAwait w1 evs1 ''StopDeviceCmd'' (DeviceTarget deviceIndex) of
                  (Returned _, w2, evs2) \<Rightarrow> (Returned (), w2, evs2)
                | (Threw err, w2, evs2) \<Rightarrow> (Threw err, w2, evs2)
                | (Unsettled, w2, evs2) \<Rightarrow> (Unsettled, w2, evs2))))"

text \<open>What \<^verbatim>\<open>getBattery\<close> gives back: \<^verbatim>\<open>result.BatteryLevel\<close>, which is a number or
  \<^verbatim>\<open>undefined\<close> (\<open>Level None\<close>) when the reply has no such field, or \<^verbatim>\<open>null\<close>.\<close>

datatype Battery = Level "Number option" | Null

definition BatteryLevel :: "Content \<Rightarrow> Number option" where
  "BatteryLevel content = (case body content of BatteryBody l \<Rightarrow> Some l | _ \<Rightarrow> None)"

definition getBattery ::
  "World \<Rightarrow> Event list \<Rightarrow> int \<Rightarrow> Battery Outcome \<times> World \<times> Event list" where
  "getBattery w evs deviceIndex =
     (case ensureConnected w evs of
        (Threw err, w1, evs1) \<Rightarrow> (Threw err, w1, evs1)
      | (Unsettled, w1, evs1) \<Rightarrow> (Unsettled, w1, evs1)
      | (Returned _, w1, evs1) \<Rightarrow>
          (case map_of (devices w1) deviceIndex of
             None \<Rightarrow> (Threw (DeviceNotFound deviceIndex), w1, evs1)
           | Some dev \<Rightarrow>
               (case sendAwait w1 evs1 ''BatteryLevelCmd'' (DeviceTarget deviceIndex) of
                  (Returned result, w2, evs2) \<Rightarrow> (Returned (Level (BatteryLevel result)), w2, evs2)
                | (Threw err, w2, evs2) \<Rightarrow> (Returned Null, w2, evs2)
                | (Unsettled, w2, evs2) \<Rightarrow> (Unsettled, w2, evs2))))"

section \<open>Presence controller\<close>

text \<open>The \<^verbatim>\<open>try { await ... } catch (err) { console.error(...) }\<close> around a device command:
  an exception is logged and the method goes on.\<close>

definition bestEffort ::
  "unit Outcome \<times> World \<times> Event list \<Rightarrow> unit Outcome \<times> World \<times> Event list" where
  "bestEffort r =
     (case r of
        (Threw err, w, evs) \<Rightarrow> (Returned (), say (LogControlFailed err) w, evs)
      | (Returned u, w, evs) \<Rightarrow> (Returned (), w, evs)
      | (Unsettled, w, evs) \<Rightarrow> (Unsettled, w, evs))"

text \<open>\<^verbatim>\<open>setState(active, device, strength)\<close>; \<open>now\<close> is what \<^verbatim>\<open>new Date().toISOString()\<close>
  reads at the call. The four fields are written before the first \<^verbatim>\<open>await\<close>. Here and in
  \<^verbatim>\<open>start\<close> and \<^verbatim>\<open>toggle\<close> the parameters are always given: a caller that omits them in the
  source passes the defaults, device 0 and \<open>DEFAULT_STRENGTH\<close>.\<close>

definition setState ::
  "World \<Rightarrow> Event list \<Rightarrow> string \<Rightarrow> bool \<Rightarrow> int \<Rightarrow> Number \<Rightarrow> unit Outcome \<times> World \<times> Event list" where
  "setState w evs now active' device' strength' =
     (let wasActive = active w;
          isChanging = (active' \<noteq> wasActive);
          w1 = w\<lparr> active := active',
                  device := device',
                  strength := strength',
                  since := (if active' then (if wasActive then since w else Some now)
                            else None) \<rparr>
      in if isChanging then
           (if active' then
              bestEffort (vibrate (say (LogStartingPresence device' strength') w1) evs
                            device' strength' None)
            else
              bestEffort (stop (say (LogStoppingPresence device') w1) evs device'))
         else (Returned (), w1, evs))"

definition start ::
  "World \<Rightarrow> Event list \<Rightarrow> string \<Rightarrow> int \<Rightarrow> Number \<Rightarrow> unit Outcome \<times> World \<times> Event list" where
  "start w evs now device' strength' = setState w evs now True device' strength'"

definition toggle ::
  "World \<Rightarrow> Event list \<Rightarrow> string \<Rightarrow> int \<Rightarrow> Number \<Rightarrow> unit Outcome \<times> World \<times> Event list" where
  "toggle w evs now device' strength' = setState w evs now (\<not> active w) device' strength'"

definition restore :: "World \<Rightarrow> Event list \<Rightarrow> string \<Rightarrow> unit Outcome \<times> World \<times> Event list" where
  "restore w evs now = setState w evs now (active w) (device w) (strength w)"

text \<open>Modelled from the spec: the type \<^verbatim>\<open>ServerMessage\<close> is imported from \<^verbatim>\<open>./types\<close>, which is
  not among the sources. The handler reads its \<^verbatim>\<open>type\<close> and, when that is \<^verbatim>\<open>"state"\<close>, its
  \<^verbatim>\<open>working\<close> count; the other fields and the other message types play no part.\<close>

datatype ServerMessage = StateMessage int | OtherMessage

definition onSessionStateMessage ::
  "World \<Rightarrow> Event list \<Rightarrow> ServerMessage \<Rightarrow> unit Outcome \<times> World \<times> Event list" where
  "onSessionStateMessage w evs message =
     (case message of
        OtherMessage \<Rightarrow> (Returned (), w, evs)
      | StateMessage working \<Rightarrow>
          let workingChanged = (working \<noteq> lastWorkingCount w);
              isNowWorking = (working > 0);
              wasWorking = (lastWorkingCount w > 0)
          in case (if workingChanged \<and> isNowWorking \<noteq> wasWorking then
                     (if isNowWorking then
                        bestEffort (vibrate (say LogStartingVibration w) evs
                                      (device w) (strength w) None)
                      else
                        bestEffort (stop (say LogStoppingVibration w) evs (device w)))
                   else (Returned (), w, evs)) of
               (Returned u, w1, evs1) \<Rightarrow> (Returned (), w1\<lparr> lastWorkingCount := working \<rparr>, evs1)
             | (Threw err, w1, evs1) \<Rightarrow> (Threw err, w1, evs1)
             | (Unsettled, w1, evs1) \<Rightarrow> (Unsettled, w1, evs1))"

section \<open>Observations used in the statements\<close>

text \<open>The world in which an awaited call leaves the object.\<close>

definition world :: "'a \<times> World \<times> Event list \<Rightarrow> World" where
  "world r = fst (snd r)"

definition outcome :: "'a \<times> World \<times> Event list \<Rightarrow> 'a" where
  "outcome r = fst r"

text \<open>The fields of the presence controller together with the trace of actuation calls:
  nothing the connection manager does touches them.\<close>

definition frame :: "World \<Rightarrow> bool \<times> int \<times> Number \<times> string option \<times> int \<times> Call list" where
  "frame w = (active w, device w, strength w, since w, lastWorkingCount w, invoked w)"

subsection \<open>Runs of the presence controller\<close>

text \<open>A call of one of the presence operations, with the clock reading \<open>now\<close> and the
  events delivered while the call is awaited. \<open>performAll\<close> makes the calls one after
  the other, whatever their outcomes.\<close>

datatype PresenceCall =
    SetState bool int Number
  | Start int Number
  | Toggle int Number
  | Restore
  | WorkSignal ServerMessage

definition perform :: "World \<Rightarrow> PresenceCall \<times> string \<times> Event list \<Rightarrow> World" where
  "perform w c =
     (case c of
        (SetState a d s, now, evs) \<Rightarrow> world (setState w evs now a d s)
      | (Start d s, now, evs) \<Rightarrow> world (start w evs now d s)
      | (Toggle d s, now, evs) \<Rightarrow> world (toggle w evs now d s)
      | (Restore, now, evs) \<Rightarrow> world (restore w evs now)
      | (WorkSignal m, now, evs) \<Rightarrow> world (onSessionStateMessage w evs m))"

definition performAll :: "World \<Rightarrow> (PresenceCall \<times> string \<times> Event list) list \<Rightarrow> World" where
  "performAll w cs = foldl perform w cs"

text \<open>Feeding the bridge a sequence of counts, each notification handled with the events
  delivered during the call: per notification, the outcome of the call and the actuation
  calls it made.\<close>

fun feed :: "World \<Rightarrow> (int \<times> Event list) list \<Rightarrow> (unit Outcome \<times> Call list) list" where
  "feed w [] = []"
| "feed w ((count, evs) # rest) =
     (let r = onSessionStateMessage w evs (StateMessage count)
      in (outcome r, drop (length (invoked w)) (invoked (world r))) # feed (world r) rest)"

text \<open>The specification's edge rule: a notification triggers a start when the count
  becomes positive, a stop when it stops being positive, and nothing otherwise.\<close>

fun edges :: "int \<Rightarrow> Number \<Rightarrow> int \<Rightarrow> int list \<Rightarrow> Call list list" where
  "edges d s previous [] = []"
| "edges d s previous (count # rest) =
     (if (count > 0) = (previous > 0) then []
      else if count > 0 then [CallVibrate d s] else [CallStop d]) # edges d s count rest"

subsection \<open>A concrete server\<close>

text \<open>A device with three vibration motors, the replies of a server to the three requests
  of the handshake on the first socket (socket 0), and the client connected to it.\<close>

definition demoDevice :: DeviceMessage where
  "demoDevice =
     \<lparr> DeviceIndex = 0, DeviceName = ''Demo'',
       DeviceMessages =
         \<lparr> ScalarCmd = Some [\<lparr> StepCount = 20, ActuatorType = ''Vibrate'' \<rparr>,
                             \<lparr> StepCount = 20, ActuatorType = ''Vibrate'' \<rparr>,
                             \<lparr> StepCount = 10, ActuatorType = ''Vibrate'' \<rparr>],
           RotateCmd = None, LinearCmd = None \<rparr> \<rparr>"

definition reply :: "string \<Rightarrow> nat \<Rightarrow> Event" where
  "reply t k = EvMessage 0 (Json [[(t, \<lparr> MsgId = k, body = OtherBody \<rparr>)]])"

definition handshake :: "Event list" where
  "handshake =
     [EvOpen 0, reply ''ServerInfo'' 1,
      EvMessage 0 (Json [[(''DeviceList'', \<lparr> MsgId = 2, body = DevicesBody [demoDevice] \<rparr>)]]),
      reply ''Ok'' 3]"

definition demoUrl :: string where
  "demoUrl = ''ws://127.0.0.1:12345''"

definition connected :: World where
  "connected = deliver (snd (connect (initial demoUrl))) handshake"

text \<open>The client connected to a server that has no device yet, and the announcement of
  the demo device on socket 0.\<close>

definition listening :: World where
  "listening =
     deliver (snd (connect (initial demoUrl)))
       [EvOpen 0, reply ''ServerInfo'' 1,
        EvMessage 0 (Json [[(''DeviceList'', \<lparr> MsgId = 2, body = DevicesBody [] \<rparr>)]]),
        reply ''Ok'' 3]"

definition announced :: Event where
  "announced =
     EvMessage 0 (Json [[(''DeviceAdded'', \<lparr> MsgId = 0, body = DeviceBody demoDevice \<rparr>)]])"

text \<open>The same client asked to vibrate device 0 at half strength, once the device has been
  announced and the closing handshake of the socket has begun.\<close>

definition closing :: World where
  "closing =
     deliver (listening\<lparr> invoked := invoked listening @ [CallVibrate 0 (Finite 0.5)] \<rparr>)
       [announced, EvClosing 0]"

text \<open>The counts of the specification's example, each with the acknowledgement the server
  sends to the command the notification triggers.\<close>

definition demoSignals :: "(int \<times> Event list) list" where
  "demoSignals =
     [(0, []), (0, []), (3, [reply ''Ok'' 4]), (3, []),
      (0, [reply ''Ok'' 5]), (5, [reply ''Ok'' 6]), (0, [reply ''Ok'' 7])]"

text \<open>The invariant of the presence state: \<open>since\<close> is set exactly when \<open>active\<close> holds.\<close>

definition sinceIffActive :: "World \<Rightarrow> bool" where
  "sinceIffActive w = ((since w \<noteq> None) = active w)"

text \<open>\<^verbatim>\<open>this.ws\<close> refers to an open socket and the first connect attempt made a socket (the
  one the concrete server answers on); and no \<^verbatim>\<open>onopen\<close> handler is suspended.\<close>

definition online :: "World \<Rightarrow> bool" where
  "online w = (readyState w = Some OPEN \<and> hasSocket w 0)"

definition idle :: "World \<Rightarrow> bool" where
  "idle w = list_all (\<lambda>a. stage a = NotRunning) (attempts w)"

text \<open>Frame routing touches the registry, the pending table and the console only.\<close>

definition routed :: "World \<Rightarrow> World \<Rightarrow> bool" where
  "routed w w1 = (\<exists>d p c. w1 = w\<lparr> devices := d, pendingMessages := p, console := c \<rparr>)"

text \<open>An \<^verbatim>\<open>Error\<close> reply of the server to the request \<open>k\<close>.\<close>

definition replyError :: "nat \<Rightarrow> string \<Rightarrow> Event" where
  "replyError k m = EvMessage 0 (Json [[(''Error'', \<lparr> MsgId = k, body = ErrorBody m \<rparr>)]])"


subsection \<open>Observations of the connection manager\<close>

text \<open>The connection state of the specification, told from the fields the way \<^verbatim>\<open>connect\<close>
  itself tells it: connected when the socket is open, otherwise connecting when a promise
  is recorded, otherwise disconnected.\<close>

datatype ConnectionState = Disconnected | Connecting nat | Connected

definition connectionState :: "World \<Rightarrow> ConnectionState" where
  "connectionState w =
     (if isConnected w then Connected
      else case connectionPromise w of Some p \<Rightarrow> Connecting p | None \<Rightarrow> Disconnected)"

text \<open>The client after \<^verbatim>\<open>connect()\<close> on a fresh object; the same once the socket has
  opened, the handshake request sent and its reply awaited; and the same once the replies
  to the handshake and to the device-list request have arrived, the reply to the scan
  start awaited.\<close>

definition connecting :: World where
  "connecting = snd (connect (initial demoUrl))"

definition opened :: World where
  "opened = deliver connecting [EvOpen 0]"


text \<open>The client after an attempt that timed out, a second \<^verbatim>\<open>connect()\<close>, the error and the
  close event of the first socket, and a third \<^verbatim>\<open>connect()\<close>.\<close>

definition retried :: World where
  "retried =
     snd (connect (deliver (snd (connect (deliver connecting [EvTimeout 0])))
                     [EvError 0, EvClose 0]))"

section \<open>Device descriptor parsing\<close>

text \<open>
  Claim C7. For every raw device message, each capability field of the parsed descriptor
  is present if and only if its source actuator group is non-empty (the vibration group
  being the scalar-command entries whose actuator type is "Vibrate"); a present capability
  has \<open>motors\<close> equal to the length of the group and \<open>steps\<close> equal to the step counts of
  the group in source order; an empty group gives no capability at all, never an empty one.
\<close>

theorem parseDevice_capabilities:
  "capabilityOf (vibrate_cap (capabilities (parseDevice d))) (vibrateGroup d) \<and>
   capabilityOf (rotate_cap (capabilities (parseDevice d))) (rotateGroup d) \<and>
   capabilityOf (linear_cap (capabilities (parseDevice d))) (linearGroup d) \<and>
   (vibrate_cap (capabilities (parseDevice d)) = None) = (vibrateGroup d = []) \<and>
   (rotate_cap (capabilities (parseDevice d)) = None) = (rotateGroup d = []) \<and>
   (linear_cap (capabilities (parseDevice d)) = None) = (linearGroup d = [])"
  by (simp add: parseDevice_def motorSpec_def capabilityOf_def vibrateGroup_def
        rotateGroup_def linearGroup_def split: option.splits)


section \<open>The connection manager leaves the presence fields alone\<close>

lemma frame_updates [simp]:
  "frame (w\<lparr> ws := a \<rparr>) = frame w"
  "frame (w\<lparr> devices := b \<rparr>) = frame w"
  "frame (w\<lparr> messageId := c \<rparr>) = frame w"
  "frame (w\<lparr> pendingMessages := d \<rparr>) = frame w"
  "frame (w\<lparr> connectionPromise := e \<rparr>) = frame w"
  "frame (w\<lparr> attempts := f \<rparr>) = frame w"
  "frame (w\<lparr> sockets := i \<rparr>) = frame w"
  "frame (w\<lparr> sent := j \<rparr>) = frame w"
  "frame (w\<lparr> console := k \<rparr>) = frame w"
  by (simp_all add: frame_def)

lemma frame_say [simp]: "frame (say l w) = frame w"
  by (simp add: say_def)

lemma frame_amend [simp]: "frame (amend k f w) = frame w"
  by (simp add: amend_def)

lemma frame_settleAttempt [simp]: "frame (settleAttempt k r w) = frame w"
  by (simp add: settleAttempt_def)

lemma frame_closeWs [simp]: "frame (closeWs w) = frame w"
  by (simp add: closeWs_def split: option.split)

lemma frame_send: "send w t p = Inr (k, w1) \<Longrightarrow> frame w1 = frame w"
  by (auto simp: send_def nextId_def split: if_splits)

lemma frame_handlerSend [simp]: "frame (handlerSend k w t p n) = frame w"
  by (auto simp: handlerSend_def endHandler_def rejectAttempt_def dest!: frame_send split: sum.splits)

lemma frame_resume [simp]: "frame (resume k w s) = frame w"
  by (simp add: resume_def endHandler_def rejectAttempt_def resolveAttempt_def
        split: Stage.splits Settled.splits)

lemma frame_resume_each [simp]: "frame (foldl (\<lambda>w k. resume k w s) w ks) = frame w"
  by (induction ks arbitrary: w) simp_all

lemma frame_resumeAll [simp]: "frame (resumeAll w s) = frame w"
  by (simp add: resumeAll_def)

lemma frame_foldl_resume [simp]: "frame (foldl resumeAll w ss) = frame w"
  by (induction ss arbitrary: w) simp_all

lemma frame_addDevice [simp]: "frame (addDevice l w d) = frame w"
  by (simp add: addDevice_def Let_def)

lemma frame_foldl_addDevice [simp]: "frame (foldl (addDevice l) w ds) = frame w"
  by (induction ds arbitrary: w) simp_all

lemma frame_settle [simp]: "frame (fst (settle w k r)) = frame w"
  by (simp add: settle_def)

lemma frame_settle2: "settle w k r = (w1, s) \<Longrightarrow> frame w1 = frame w"
  by (auto simp: settle_def split: if_splits)

lemma frame_handleEntry:
  "(case handleEntry w m of Inl e \<Rightarrow> True | Inr (w1, s) \<Rightarrow> frame w1 = frame w)"
  unfolding handleEntry_def
  by (simp add: Let_def frame_settle2 split: list.split Body.split option.split prod.split)


lemma frame_handleEntries: "handleEntries w ms acc = (w1, s) \<Longrightarrow> frame w1 = frame w"
proof (induction ms arbitrary: w acc)
  case Nil
  then show ?case by simp
next
  case (Cons m ms)
  show ?case
  proof (cases "handleEntry w m")
    case (Inl e)
    with Cons.prems show ?thesis by auto
  next
    case (Inr r)
    obtain w2 s2 where r: "r = (w2, s2)" by (cases r)
    from frame_handleEntry [of w m] Inr r have "frame w2 = frame w" by simp
    moreover from Cons.prems Inr r have "handleEntries w2 ms (acc @ s2) = (w1, s)" by simp
    ultimately show ?thesis using Cons.IH by metis
  qed
qed

lemma frame_handleMessage: "handleMessage w f = (w1, s) \<Longrightarrow> frame w1 = frame w"
  by (cases f) (auto simp: handleMessage_def dest: frame_handleEntries)

lemma frame_dispatch: "dispatch w ev = (w1, s) \<Longrightarrow> frame w1 = frame w"
proof (cases ev)
  case (EvMessage k f)
  assume d: "dispatch w ev = (w1, s)"
  obtain w2 s2 where h: "handleMessage w f = (w2, s2)" by (cases "handleMessage w f")
  with d EvMessage have "w1 = foldl resumeAll w2 s2 \<or> w1 = w"
    by (auto simp: dispatch_def split: if_splits)
  with frame_handleMessage [OF h] show ?thesis by auto
qed (auto simp: dispatch_def onopen_def onerror_def onclose_def ontimeout_def rejectAttempt_def
       split: if_splits)

lemma frame_dispatch_fst [simp]: "frame (fst (dispatch w ev)) = frame w"
  by (cases "dispatch w ev") (simp add: frame_dispatch)


lemma frame_deliver [simp]: "frame (deliver w evs) = frame w"
  unfolding deliver_def by (induction evs arbitrary: w) simp_all

lemma frame_awaitPromise: "awaitPromise w p evs = (r, w1, evs1) \<Longrightarrow> frame w1 = frame w"
proof (induction evs arbitrary: w)
  case Nil
  then show ?case by (cases "promiseState w p") auto
next
  case (Cons ev evs)
  show ?case
  proof (cases "promiseState w p")
    case Pending
    with Cons.prems have "awaitPromise (fst (dispatch w ev)) p evs = (r, w1, evs1)" by simp
    from Cons.IH [OF this] show ?thesis by simp
  qed (use Cons.prems in auto)
qed

lemma frame_awaitReply: "awaitReply w k evs = (r, w1, evs1) \<Longrightarrow> frame w1 = frame w"
proof (induction evs arbitrary: w)
  case Nil
  then show ?case by simp
next
  case (Cons ev evs)
  obtain w2 s2 where d: "dispatch w ev = (w2, s2)" by (cases "dispatch w ev")
  have f: "frame w2 = frame w" using frame_dispatch [OF d] .
  show ?case
  proof (cases "map_of s2 k")
    case None
    with Cons.prems d have "awaitReply w2 k evs = (r, w1, evs1)" by simp
    from Cons.IH [OF this] f show ?thesis by simp
  next
    case (Some x)
    with Cons.prems d f show ?thesis by (cases x) auto
  qed
qed

lemma frame_sendAwait: "sendAwait w evs t p = (r, w1, evs1) \<Longrightarrow> frame w1 = frame w"
proof (cases "send w t p")
  case (Inl e)
  assume "sendAwait w evs t p = (r, w1, evs1)"
  with Inl show ?thesis by (simp add: sendAwait_def)
next
  case (Inr x)
  assume a: "sendAwait w evs t p = (r, w1, evs1)"
  obtain k w2 where x: "x = (k, w2)" by (cases x)
  with a Inr have "awaitReply w2 k evs = (r, w1, evs1)" by (simp add: sendAwait_def)
  from frame_awaitReply [OF this] frame_send [of w t p k w2] Inr x show ?thesis by simp
qed

lemma frame_sleep: "sleep w evs = (b, w1, evs1) \<Longrightarrow> frame w1 = frame w"
proof (induction evs arbitrary: w)
  case Nil
  then show ?case by simp
next
  case (Cons ev evs)
  show ?case
  proof (cases "ev = EvTick")
    case True
    with Cons.prems show ?thesis by simp
  next
    case False
    with Cons.prems have "sleep (fst (dispatch w ev)) evs = (b, w1, evs1)"
      by (cases ev) simp_all
    from Cons.IH [OF this] show ?thesis by simp
  qed
qed

lemma frame_waitForDevice: "waitForDevice n w evs = (r, w1, evs1) \<Longrightarrow> frame w1 = frame w"
proof (induction n arbitrary: w evs)
  case 0
  then show ?case by simp
next
  case (Suc n)
  show ?case
  proof (cases "length (devices w) > 0")
    case True
    with Suc.prems show ?thesis by simp
  next
    case False
    obtain b w2 evs2 where s: "sleep w evs = (b, w2, evs2)" by (cases "sleep w evs")
    have f: "frame w2 = frame w" using frame_sleep [OF s] .
    show ?thesis
    proof (cases b)
      case True
      with Suc.prems False s have "waitForDevice n w2 evs2 = (r, w1, evs1)" by simp
      from Suc.IH [OF this] f show ?thesis by simp
    next
      case False
      with Suc.prems \<open>\<not> length (devices w) > 0\<close> s f show ?thesis by simp
    qed
  qed
qed

lemma frame_connect: "connect w = (c, w1) \<Longrightarrow> frame w1 = frame w"
  by (auto simp: connect_def Let_def split: option.splits if_splits)

lemma frame_ensureConnected: "ensureConnected w evs = (r, w1, evs1) \<Longrightarrow> frame w1 = frame w"
proof (cases "isConnected w")
  case True
  assume "ensureConnected w evs = (r, w1, evs1)"
  with True show ?thesis by (simp add: ensureConnected_def frame_waitForDevice)
next
  case False
  assume a: "ensureConnected w evs = (r, w1, evs1)"
  obtain c w2 where c: "connect w = (c, w2)" by (cases "connect w")
  have f2: "frame w2 = frame w" using frame_connect [OF c] .
  show ?thesis
  proof (cases c)
    case Immediately
    with a False c have "waitForDevice 10 w2 evs = (r, w1, evs1)"
      by (simp add: ensureConnected_def)
    from frame_waitForDevice [OF this] f2 show ?thesis by simp
  next
    case (SharedPromise p)
    obtain r3 w3 evs3 where p: "awaitPromise w2 p evs = (r3, w3, evs3)"
      by (cases "awaitPromise w2 p evs")
    have f3: "frame w3 = frame w" using frame_awaitPromise [OF p] f2 by simp
    show ?thesis
    proof (cases r3)
      case (Returned u)
      with a False c SharedPromise p have "waitForDevice 10 w3 evs3 = (r, w1, evs1)"
        by (simp add: ensureConnected_def)
      from frame_waitForDevice [OF this] f3 show ?thesis by simp
    next
      case (Threw e)
      with a False c SharedPromise p f3 show ?thesis by (simp add: ensureConnected_def)
    next
      case Unsettled
      with a False c SharedPromise p f3 show ?thesis by (simp add: ensureConnected_def)
    qed
  qed
qed


section \<open>The presence controller\<close>

lemma frame_vibrate:
  "vibrate w evs i s m = (r, w1, evs1) \<Longrightarrow>
   frame w1 = frame (w\<lparr> invoked := invoked w @ [CallVibrate i s] \<rparr>)"
proof -
  assume a: "vibrate w evs i s m = (r, w1, evs1)"
  let ?w0 = "w\<lparr> invoked := invoked w @ [CallVibrate i s] \<rparr>"
  obtain r2 w2 evs2 where e: "ensureConnected ?w0 evs = (r2, w2, evs2)"
    by (cases "ensureConnected ?w0 evs")
  have f2: "frame w2 = frame ?w0" using frame_ensureConnected [OF e] .
  show ?thesis
  proof (cases r2)
    case (Returned u)
    show ?thesis
    proof (cases "map_of (devices w2) i")
      case None
      with a e Returned f2 show ?thesis by (simp add: vibrate_def)
    next
      case (Some dev)
      show ?thesis
      proof (cases "vibrate_cap (capabilities dev)")
        case None
        with a e Returned Some f2 show ?thesis by (simp add: vibrate_def)
      next
        case (Some spec)
        let ?p = "ScalarList i (scalarsFor (motors spec) (Math_max (Finite 0) (Math_min (Finite 1) s)) m)"
        obtain r3 w3 evs3 where sa: "sendAwait w2 evs2 ''ScalarCmd'' ?p = (r3, w3, evs3)"
          by (cases "sendAwait w2 evs2 ''ScalarCmd'' ?p")
        have f3: "frame w3 = frame w2" using frame_sendAwait [OF sa] .
        from a e Returned \<open>map_of (devices w2) i = Some dev\<close> Some sa have "w1 = w3"
          by (cases r3) (simp_all add: vibrate_def Let_def)
        with f3 f2 show ?thesis by simp
      qed
    qed
  next
    case (Threw err)
    with a e f2 show ?thesis by (simp add: vibrate_def)
  next
    case Unsettled
    with a e f2 show ?thesis by (simp add: vibrate_def)
  qed
qed

lemma frame_stop:
  "stop w evs i = (r, w1, evs1) \<Longrightarrow>
   frame w1 = frame (w\<lparr> invoked := invoked w @ [CallStop i] \<rparr>)"
proof -
  assume a: "stop w evs i = (r, w1, evs1)"
  let ?w0 = "w\<lparr> invoked := invoked w @ [CallStop i] \<rparr>"
  obtain r2 w2 evs2 where e: "ensureConnected ?w0 evs = (r2, w2, evs2)"
    by (cases "ensureConnected ?w0 evs")
  have f2: "frame w2 = frame ?w0" using frame_ensureConnected [OF e] .
  show ?thesis
  proof (cases r2)
    case (Returned u)
    show ?thesis
    proof (cases "map_of (devices w2) i")
      case None
      with a e Returned f2 show ?thesis by (simp add: stop_def)
    next
      case (Some dev)
      obtain r3 w3 evs3 where sa:
        "sendAwait w2 evs2 ''StopDeviceCmd'' (DeviceTarget i) = (r3, w3, evs3)"
        by (cases "sendAwait w2 evs2 ''StopDeviceCmd'' (DeviceTarget i)")
      have f3: "frame w3 = frame w2" using frame_sendAwait [OF sa] .
      from a e Returned Some sa have "w1 = w3"
        by (cases r3) (simp_all add: stop_def)
      with f3 f2 show ?thesis by simp
    qed
  next
    case (Threw err)
    with a e f2 show ?thesis by (simp add: stop_def)
  next
    case Unsettled
    with a e f2 show ?thesis by (simp add: stop_def)
  qed
qed

lemma frame_bestEffort: "bestEffort x = (r, w1, evs1) \<Longrightarrow> frame w1 = frame (fst (snd x))"
  by (cases x; cases "fst x") (auto simp: bestEffort_def)

lemma frame_world_vibrate [simp]:
  "frame (world (bestEffort (vibrate w evs i s m))) = frame (w\<lparr> invoked := invoked w @ [CallVibrate i s] \<rparr>)"
proof -
  obtain r w1 evs1 where v: "vibrate w evs i s m = (r, w1, evs1)" by (cases "vibrate w evs i s m")
  obtain r2 w2 evs2 where b: "bestEffort (vibrate w evs i s m) = (r2, w2, evs2)"
    by (cases "bestEffort (vibrate w evs i s m)")
  from frame_bestEffort [OF b] v frame_vibrate [OF v] b show ?thesis by (simp add: world_def)
qed

lemma frame_world_stop [simp]:
  "frame (world (bestEffort (stop w evs i))) = frame (w\<lparr> invoked := invoked w @ [CallStop i] \<rparr>)"
proof -
  obtain r w1 evs1 where v: "stop w evs i = (r, w1, evs1)" by (cases "stop w evs i")
  obtain r2 w2 evs2 where b: "bestEffort (stop w evs i) = (r2, w2, evs2)"
    by (cases "bestEffort (stop w evs i)")
  from frame_bestEffort [OF b] v frame_stop [OF v] b show ?thesis by (simp add: world_def)
qed

lemma frame_setState:
  "frame (world (setState w evs now a d s)) =
     (a, d, s, (if a then (if active w then since w else Some now) else None),
      lastWorkingCount w,
      invoked w @ (if a \<noteq> active w then [if a then CallVibrate d s else CallStop d] else []))"
  by (simp add: setState_def Let_def) (simp add: frame_def world_def say_def)


lemma bestEffort_no_throw: "fst (bestEffort x) \<noteq> Threw e"
  by (cases x; cases "fst x") (auto simp: bestEffort_def)

lemma frame_signal:
  "frame (world (onSessionStateMessage w evs (StateMessage c))) =
     (active w, device w, strength w, since w,
      (if outcome (onSessionStateMessage w evs (StateMessage c)) = Returned () then c
       else lastWorkingCount w),
      invoked w @
        (if (c > 0) = (lastWorkingCount w > 0) then []
         else if c > 0 then [CallVibrate (device w) (strength w)] else [CallStop (device w)]))"
proof -
  let ?inner = "if c \<noteq> lastWorkingCount w \<and> (c > 0) \<noteq> (lastWorkingCount w > 0) then
                  (if c > 0 then
                     bestEffort (vibrate (say LogStartingVibration w) evs (device w) (strength w) None)
                   else bestEffort (stop (say LogStoppingVibration w) evs (device w)))
                else (Returned (), w, evs)"
  obtain r w1 evs1 where i: "?inner = (r, w1, evs1)" by (cases ?inner)
  have o: "onSessionStateMessage w evs (StateMessage c) =
        (case r of Returned u \<Rightarrow> (Returned (), w1\<lparr> lastWorkingCount := c \<rparr>, evs1)
         | Threw err \<Rightarrow> (Threw err, w1, evs1) | Unsettled \<Rightarrow> (Unsettled, w1, evs1))"
    using i by (cases r) (simp_all add: onSessionStateMessage_def Let_def)
  have nothrow: "r \<noteq> Threw e" for e
  proof -
    from i consider "r = Returned ()"
      | "bestEffort (vibrate (say LogStartingVibration w) evs (device w) (strength w) None) = (r, w1, evs1)"
      | "bestEffort (stop (say LogStoppingVibration w) evs (device w)) = (r, w1, evs1)"
      by (auto split: if_splits)
    then show ?thesis
    proof cases
      case 1
      then show ?thesis by simp
    next
      case 2
      then show ?thesis using bestEffort_no_throw by (metis fst_conv)
    next
      case 3
      then show ?thesis using bestEffort_no_throw by (metis fst_conv)
    qed
  qed
  have f1: "frame w1 = (active w, device w, strength w, since w, lastWorkingCount w,
      invoked w @
        (if (c > 0) = (lastWorkingCount w > 0) then []
         else if c > 0 then [CallVibrate (device w) (strength w)] else [CallStop (device w)]))"
  proof (cases "(c > 0) = (lastWorkingCount w > 0)")
    case True
    with i have "w1 = w" by (auto split: if_splits)
    with True show ?thesis by (simp add: frame_def)
  next
    case False
    then have ne: "c \<noteq> lastWorkingCount w" by auto
    show ?thesis
    proof (cases "c > 0")
      case True
      with False ne i have "w1 = world (bestEffort (vibrate (say LogStartingVibration w) evs (device w) (strength w) None))"
        by (simp add: world_def)
      then have "frame w1 = frame ((say LogStartingVibration w)\<lparr> invoked := invoked (say LogStartingVibration w) @ [CallVibrate (device w) (strength w)] \<rparr>)"
        by simp
      with True False show ?thesis by (simp add: frame_def say_def)
    next
      case c: False
      with False ne i have "w1 = world (bestEffort (stop (say LogStoppingVibration w) evs (device w)))"
        by (simp add: world_def)
      then have "frame w1 = frame ((say LogStoppingVibration w)\<lparr> invoked := invoked (say LogStoppingVibration w) @ [CallStop (device w)] \<rparr>)"
        by simp
      with c False show ?thesis by (simp add: frame_def say_def)
    qed
  qed
  show ?thesis
  proof (cases r)
    case (Returned u)
    with o f1 show ?thesis by (simp add: world_def outcome_def frame_def)
  next
    case (Threw e)
    with nothrow [of e] show ?thesis by blast
  next
    case Unsettled
    with o f1 show ?thesis by (simp add: world_def outcome_def frame_def)
  qed
qed

lemma frame_signal_other:
  "world (onSessionStateMessage w evs OtherMessage) = w"
  by (simp add: onSessionStateMessage_def world_def)

lemma feed_edges:
  "map fst (feed w xs) = replicate (length xs) (Returned ()) \<Longrightarrow>
   map snd (feed w xs) = edges (device w) (strength w) (lastWorkingCount w) (map fst xs)"
proof (induction xs arbitrary: w)
  case Nil
  show ?case by simp
next
  case (Cons x xs)
  obtain c evs where x: "x = (c, evs)" by (cases x)
  let ?r = "onSessionStateMessage w evs (StateMessage c)"
  from Cons.prems x have ret: "outcome ?r = Returned ()"
    and rest: "map fst (feed (world ?r) xs) = replicate (length xs) (Returned ())"
    by (simp_all add: Let_def)
  from frame_signal [of w evs c] ret
  have f: "device (world ?r) = device w" "strength (world ?r) = strength w"
    "lastWorkingCount (world ?r) = c"
    "invoked (world ?r) = invoked w @
        (if (c > 0) = (lastWorkingCount w > 0) then []
         else if c > 0 then [CallVibrate (device w) (strength w)] else [CallStop (device w)])"
    by (simp_all add: frame_def)
  from Cons.IH [OF rest] f x show ?case by (simp add: Let_def)
qed

lemma setState_fields:
  "active (world (setState w evs now a d s)) = a"
  "device (world (setState w evs now a d s)) = d"
  "strength (world (setState w evs now a d s)) = s"
  "since (world (setState w evs now a d s)) =
     (if a then (if active w then since w else Some now) else None)"
  "lastWorkingCount (world (setState w evs now a d s)) = lastWorkingCount w"
  "invoked (world (setState w evs now a d s)) =
     invoked w @ (if a \<noteq> active w then [if a then CallVibrate d s else CallStop d] else [])"
  using frame_setState [of w evs now a d s] by (simp_all add: frame_def)

lemma signal_fields:
  "active (world (onSessionStateMessage w evs m)) = active w"
  "since (world (onSessionStateMessage w evs m)) = since w"
  using frame_signal [of w evs] frame_signal_other [of w evs]
  by (cases m; simp add: frame_def)+

lemma perform_invariant: "sinceIffActive w \<Longrightarrow> sinceIffActive (perform w c)"
proof -
  assume i: "sinceIffActive w"
  obtain k now evs where c: "c = (k, now, evs)" by (cases c)
  show ?thesis
    using i unfolding c
    by (cases k)
       (auto simp: perform_def sinceIffActive_def start_def toggle_def restore_def
          setState_fields signal_fields)
qed

lemma performAll_invariant: "sinceIffActive w \<Longrightarrow> sinceIffActive (performAll w cs)"
  unfolding performAll_def
  by (induction cs arbitrary: w) (simp_all add: perform_invariant)


section \<open>The concrete server\<close>

lemmas run_defs = deliver_def dispatch_def connect_def initial_def handshake_def reply_def
  onopen_def handlerSend_def send_def nextId_def say_def handleMessage_def handleEntry_def
  settle_def resume_def endHandler_def resolveAttempt_def rejectAttempt_def settleAttempt_def
  addDevice_def parseDevice_def motorSpec_def demoDevice_def demoUrl_def Let_def
  readyState_def hasSocket_def promiseState_def timerArmed_def stageOf_def amend_def
  resumeAll_def

lemma connected_eq: "connected =
  \<lparr>ws = Some 0,
      devices =
        [(0, \<lparr>index = 0, name = ''Demo'',
                 capabilities =
                   \<lparr>vibrate_cap = Some \<lparr>motors = 3, steps = [20, 20, 10]\<rparr>,
                      rotate_cap = None, linear_cap = None\<rparr>\<rparr>)],
      messageId = 4, pendingMessages = {}, connectionPromise = None,
      wsUrl = Some demoUrl, active = False,
      device = 0, strength = Finite 0.15, since = None, lastWorkingCount = 0,
      attempts =
        [\<lparr>promise = Fulfilled, socket = Some OPEN, timer = False, stage = NotRunning\<rparr>],
      sockets = 1,
      sent =
        [(''RequestServerInfo'', 1, ClientInfo ''Familiar'' 3),
         (''RequestDeviceList'', 2, NoFields), (''StartScanning'', 3, NoFields)],
      console =
        [LogConnecting demoUrl, LogConnected,
         LogHandshakeComplete, LogDeviceFound ''Demo'' 0, LogStartedScanning],
      invoked = [], constructorThrows = False\<rparr>"
  unfolding connected_def by (simp add: run_defs)

lemma waitForDevice_ready:
  "length (devices w) > 0 \<Longrightarrow> waitForDevice 10 w evs = (Returned (), w, evs)"
  by (simp add: eval_nat_numeral)


lemma resume_idle: "idle w \<Longrightarrow> resume k w s = w"
  by (simp add: resume_def stageOf_def idle_def list_all_length)

lemma resume_each_idle: "idle w \<Longrightarrow> foldl (\<lambda>w k. resume k w s) w ks = w"
  by (induction ks) (simp_all add: resume_idle)

lemma resumeAll_idle: "idle w \<Longrightarrow> resumeAll w s = w"
  by (simp add: resumeAll_def resume_each_idle)

lemma readyState_updates [simp]:
  "readyState (w\<lparr> devices := x0 \<rparr>) = readyState w"
  "readyState (w\<lparr> messageId := x1 \<rparr>) = readyState w"
  "readyState (w\<lparr> pendingMessages := x2 \<rparr>) = readyState w"
  "readyState (w\<lparr> connectionPromise := x3 \<rparr>) = readyState w"
  "readyState (w\<lparr> sent := x4 \<rparr>) = readyState w"
  "readyState (w\<lparr> console := x5 \<rparr>) = readyState w"
  "readyState (w\<lparr> invoked := x6 \<rparr>) = readyState w"
  "readyState (w\<lparr> lastWorkingCount := x7 \<rparr>) = readyState w"
  "readyState (w\<lparr> active := x8 \<rparr>) = readyState w"
  "readyState (w\<lparr> since := x9 \<rparr>) = readyState w"
  "readyState (w\<lparr> device := x10 \<rparr>) = readyState w"
  "readyState (w\<lparr> strength := x11 \<rparr>) = readyState w"
  "readyState (w\<lparr> sockets := x12 \<rparr>) = readyState w"
  "readyState (say l w) = readyState w"
  by (simp_all add: readyState_def say_def split: option.split)

lemma hasSocket_updates [simp]:
  "hasSocket (w\<lparr> devices := x0 \<rparr>) k = hasSocket w k"
  "hasSocket (w\<lparr> messageId := x1 \<rparr>) k = hasSocket w k"
  "hasSocket (w\<lparr> pendingMessages := x2 \<rparr>) k = hasSocket w k"
  "hasSocket (w\<lparr> connectionPromise := x3 \<rparr>) k = hasSocket w k"
  "hasSocket (w\<lparr> sent := x4 \<rparr>) k = hasSocket w k"
  "hasSocket (w\<lparr> console := x5 \<rparr>) k = hasSocket w k"
  "hasSocket (w\<lparr> invoked := x6 \<rparr>) k = hasSocket w k"
  "hasSocket (w\<lparr> lastWorkingCount := x7 \<rparr>) k = hasSocket w k"
  "hasSocket (w\<lparr> active := x8 \<rparr>) k = hasSocket w k"
  "hasSocket (w\<lparr> since := x9 \<rparr>) k = hasSocket w k"
  "hasSocket (w\<lparr> device := x10 \<rparr>) k = hasSocket w k"
  "hasSocket (w\<lparr> strength := x11 \<rparr>) k = hasSocket w k"
  "hasSocket (w\<lparr> sockets := x12 \<rparr>) k = hasSocket w k"
  "hasSocket (w\<lparr> ws := x13 \<rparr>) k = hasSocket w k"
  "hasSocket (say l w) k = hasSocket w k"
  by (simp_all add: hasSocket_def say_def)

lemma promiseState_updates [simp]:
  "promiseState (w\<lparr> devices := x0 \<rparr>) k = promiseState w k"
  "promiseState (w\<lparr> messageId := x1 \<rparr>) k = promiseState w k"
  "promiseState (w\<lparr> pendingMessages := x2 \<rparr>) k = promiseState w k"
  "promiseState (w\<lparr> connectionPromise := x3 \<rparr>) k = promiseState w k"
  "promiseState (w\<lparr> sent := x4 \<rparr>) k = promiseState w k"
  "promiseState (w\<lparr> console := x5 \<rparr>) k = promiseState w k"
  "promiseState (w\<lparr> invoked := x6 \<rparr>) k = promiseState w k"
  "promiseState (w\<lparr> lastWorkingCount := x7 \<rparr>) k = promiseState w k"
  "promiseState (w\<lparr> active := x8 \<rparr>) k = promiseState w k"
  "promiseState (w\<lparr> since := x9 \<rparr>) k = promiseState w k"
  "promiseState (w\<lparr> device := x10 \<rparr>) k = promiseState w k"
  "promiseState (w\<lparr> strength := x11 \<rparr>) k = promiseState w k"
  "promiseState (w\<lparr> sockets := x12 \<rparr>) k = promiseState w k"
  "promiseState (w\<lparr> ws := x13 \<rparr>) k = promiseState w k"
  "promiseState (say l w) k = promiseState w k"
  by (simp_all add: promiseState_def say_def)

lemma timerArmed_updates [simp]:
  "timerArmed (w\<lparr> devices := x0 \<rparr>) k = timerArmed w k"
  "timerArmed (w\<lparr> messageId := x1 \<rparr>) k = timerArmed w k"
  "timerArmed (w\<lparr> pendingMessages := x2 \<rparr>) k = timerArmed w k"
  "timerArmed (w\<lparr> connectionPromise := x3 \<rparr>) k = timerArmed w k"
  "timerArmed (w\<lparr> sent := x4 \<rparr>) k = timerArmed w k"
  "timerArmed (w\<lparr> console := x5 \<rparr>) k = timerArmed w k"
  "timerArmed (w\<lparr> invoked := x6 \<rparr>) k = timerArmed w k"
  "timerArmed (w\<lparr> lastWorkingCount := x7 \<rparr>) k = timerArmed w k"
  "timerArmed (w\<lparr> active := x8 \<rparr>) k = timerArmed w k"
  "timerArmed (w\<lparr> since := x9 \<rparr>) k = timerArmed w k"
  "timerArmed (w\<lparr> device := x10 \<rparr>) k = timerArmed w k"
  "timerArmed (w\<lparr> strength := x11 \<rparr>) k = timerArmed w k"
  "timerArmed (w\<lparr> sockets := x12 \<rparr>) k = timerArmed w k"
  "timerArmed (w\<lparr> ws := x13 \<rparr>) k = timerArmed w k"
  "timerArmed (say l w) k = timerArmed w k"
  by (simp_all add: timerArmed_def say_def)

lemma stageOf_updates [simp]:
  "stageOf (w\<lparr> devices := x0 \<rparr>) k = stageOf w k"
  "stageOf (w\<lparr> messageId := x1 \<rparr>) k = stageOf w k"
  "stageOf (w\<lparr> pendingMessages := x2 \<rparr>) k = stageOf w k"
  "stageOf (w\<lparr> connectionPromise := x3 \<rparr>) k = stageOf w k"
  "stageOf (w\<lparr> sent := x4 \<rparr>) k = stageOf w k"
  "stageOf (w\<lparr> console := x5 \<rparr>) k = stageOf w k"
  "stageOf (w\<lparr> invoked := x6 \<rparr>) k = stageOf w k"
  "stageOf (w\<lparr> lastWorkingCount := x7 \<rparr>) k = stageOf w k"
  "stageOf (w\<lparr> active := x8 \<rparr>) k = stageOf w k"
  "stageOf (w\<lparr> since := x9 \<rparr>) k = stageOf w k"
  "stageOf (w\<lparr> device := x10 \<rparr>) k = stageOf w k"
  "stageOf (w\<lparr> strength := x11 \<rparr>) k = stageOf w k"
  "stageOf (w\<lparr> sockets := x12 \<rparr>) k = stageOf w k"
  "stageOf (w\<lparr> ws := x13 \<rparr>) k = stageOf w k"
  "stageOf (say l w) k = stageOf w k"
  by (simp_all add: stageOf_def say_def)

lemma idle_updates [simp]:
  "idle (w\<lparr> devices := x0 \<rparr>) = idle w"
  "idle (w\<lparr> messageId := x1 \<rparr>) = idle w"
  "idle (w\<lparr> pendingMessages := x2 \<rparr>) = idle w"
  "idle (w\<lparr> connectionPromise := x3 \<rparr>) = idle w"
  "idle (w\<lparr> sent := x4 \<rparr>) = idle w"
  "idle (w\<lparr> console := x5 \<rparr>) = idle w"
  "idle (w\<lparr> invoked := x6 \<rparr>) = idle w"
  "idle (w\<lparr> lastWorkingCount := x7 \<rparr>) = idle w"
  "idle (w\<lparr> active := x8 \<rparr>) = idle w"
  "idle (w\<lparr> since := x9 \<rparr>) = idle w"
  "idle (w\<lparr> device := x10 \<rparr>) = idle w"
  "idle (w\<lparr> strength := x11 \<rparr>) = idle w"
  "idle (w\<lparr> sockets := x12 \<rparr>) = idle w"
  "idle (w\<lparr> ws := x13 \<rparr>) = idle w"
  "idle (say l w) = idle w"
  by (simp_all add: idle_def say_def)

lemma online_updates [simp]:
  "online (w\<lparr> devices := x0 \<rparr>) = online w"
  "online (w\<lparr> messageId := x1 \<rparr>) = online w"
  "online (w\<lparr> pendingMessages := x2 \<rparr>) = online w"
  "online (w\<lparr> connectionPromise := x3 \<rparr>) = online w"
  "online (w\<lparr> sent := x4 \<rparr>) = online w"
  "online (w\<lparr> console := x5 \<rparr>) = online w"
  "online (w\<lparr> invoked := x6 \<rparr>) = online w"
  "online (w\<lparr> lastWorkingCount := x7 \<rparr>) = online w"
  "online (w\<lparr> active := x8 \<rparr>) = online w"
  "online (w\<lparr> since := x9 \<rparr>) = online w"
  "online (w\<lparr> device := x10 \<rparr>) = online w"
  "online (w\<lparr> strength := x11 \<rparr>) = online w"
  "online (w\<lparr> sockets := x12 \<rparr>) = online w"
  "online (say l w) = online w"
  by (simp_all add: online_def say_def)

lemma online_ready: "online w \<Longrightarrow> ws w \<noteq> None \<and> readyState w = Some OPEN \<and> hasSocket w 0"
  by (simp add: online_def readyState_def split: option.splits)

lemma reply_Ok:
  "online w \<Longrightarrow> idle w \<Longrightarrow>
   sendAwait w [reply ''Ok'' (messageId w)] t p =
     (Returned \<lparr> MsgId = messageId w, body = OtherBody \<rparr>,
      w\<lparr> messageId := messageId w + 1,
         pendingMessages := pendingMessages w - {messageId w},
         sent := sent w @ [(t, messageId w, p)] \<rparr>, [])"
  using online_ready [of w]
  by (simp add: sendAwait_def send_def nextId_def reply_def dispatch_def handleMessage_def
        handleEntry_def settle_def resumeAll_idle Let_def)

lemma vibrate_Ok:
  "online w \<Longrightarrow> idle w \<Longrightarrow> map_of (devices w) i = Some dev \<Longrightarrow>
   vibrate_cap (capabilities dev) = Some spec \<Longrightarrow>
   vibrate w [reply ''Ok'' (messageId w)] i s m =
     (Returned (),
      w\<lparr> invoked := invoked w @ [CallVibrate i s],
         messageId := messageId w + 1,
         pendingMessages := pendingMessages w - {messageId w},
         sent := sent w @ [(''ScalarCmd'', messageId w,
                   ScalarList i (scalarsFor (motors spec) (Math_max (Finite 0) (Math_min (Finite 1) s)) m))] \<rparr>, [])"
proof -
  assume a: "online w" "idle w" "map_of (devices w) i = Some dev"
    "vibrate_cap (capabilities dev) = Some spec"
  let ?w0 = "w\<lparr> invoked := invoked w @ [CallVibrate i s] \<rparr>"
  from a(3) have "devices w \<noteq> []" by auto
  then have e: "ensureConnected ?w0 [reply ''Ok'' (messageId w)] = (Returned (), ?w0, [reply ''Ok'' (messageId w)])"
    using online_ready [OF a(1)] by (simp add: ensureConnected_def isConnected_def waitForDevice_ready)
  have s: "sendAwait ?w0 [reply ''Ok'' (messageId ?w0)] ''ScalarCmd'' (ScalarList i (scalarsFor (motors spec) (Math_max (Finite 0) (Math_min (Finite 1) s)) m)) = (Returned \<lparr> MsgId = messageId ?w0, body = OtherBody \<rparr>,
      ?w0\<lparr> messageId := messageId ?w0 + 1,
         pendingMessages := pendingMessages ?w0 - {messageId ?w0},
         sent := sent ?w0 @ [(''ScalarCmd'', messageId ?w0, ScalarList i (scalarsFor (motors spec) (Math_max (Finite 0) (Math_min (Finite 1) s)) m))] \<rparr>, [])"
    by (rule reply_Ok) (use a in simp_all)
  show ?thesis
    unfolding vibrate_def e using a s by (simp add: Let_def)
qed


lemma stop_Ok:
  "online w \<Longrightarrow> idle w \<Longrightarrow> map_of (devices w) i = Some dev \<Longrightarrow>
   stop w [reply ''Ok'' (messageId w)] i =
     (Returned (),
      w\<lparr> invoked := invoked w @ [CallStop i],
         messageId := messageId w + 1,
         pendingMessages := pendingMessages w - {messageId w},
         sent := sent w @ [(''StopDeviceCmd'', messageId w, DeviceTarget i)] \<rparr>, [])"
proof -
  assume a: "online w" "idle w" "map_of (devices w) i = Some dev"
  let ?w0 = "w\<lparr> invoked := invoked w @ [CallStop i] \<rparr>"
  from a(3) have "devices w \<noteq> []" by auto
  then have e: "ensureConnected ?w0 [reply ''Ok'' (messageId w)] = (Returned (), ?w0, [reply ''Ok'' (messageId w)])"
    using online_ready [OF a(1)] by (simp add: ensureConnected_def isConnected_def waitForDevice_ready)
  have s: "sendAwait ?w0 [reply ''Ok'' (messageId ?w0)] ''StopDeviceCmd'' (DeviceTarget i) = (Returned \<lparr> MsgId = messageId ?w0, body = OtherBody \<rparr>,
      ?w0\<lparr> messageId := messageId ?w0 + 1,
         pendingMessages := pendingMessages ?w0 - {messageId ?w0},
         sent := sent ?w0 @ [(''StopDeviceCmd'', messageId ?w0, DeviceTarget i)] \<rparr>, [])"
    by (rule reply_Ok) (use a in simp_all)
  show ?thesis
    unfolding stop_def e using a s by simp
qed

lemma signal_same:
  "(c > 0) = (lastWorkingCount w > 0) \<Longrightarrow>
   onSessionStateMessage w evs (StateMessage c) = (Returned (), w\<lparr> lastWorkingCount := c \<rparr>, evs)"
  by (simp add: onSessionStateMessage_def Let_def)

lemma signal_rising:
  "online w \<Longrightarrow> idle w \<Longrightarrow> map_of (devices w) (device w) = Some dev \<Longrightarrow>
   vibrate_cap (capabilities dev) = Some spec \<Longrightarrow> messageId w = k \<Longrightarrow>
   c > 0 \<Longrightarrow> \<not> lastWorkingCount w > 0 \<Longrightarrow>
   onSessionStateMessage w [reply ''Ok'' k] (StateMessage c) =
     (Returned (),
      w\<lparr> console := console w @ [LogStartingVibration],
         invoked := invoked w @ [CallVibrate (device w) (strength w)],
         messageId := k + 1,
         pendingMessages := pendingMessages w - {k},
         sent := sent w @ [(''ScalarCmd'', k,
                   ScalarList (device w)
                     (scalarsFor (motors spec) (Math_max (Finite 0) (Math_min (Finite 1) (strength w))) None))],
         lastWorkingCount := c \<rparr>, [])"
proof -
  assume a: "online w" "idle w" "map_of (devices w) (device w) = Some dev"
    "vibrate_cap (capabilities dev) = Some spec" "messageId w = k"
    "c > 0" "\<not> lastWorkingCount w > 0"
  let ?w0 = "say LogStartingVibration w"
  have "vibrate ?w0 [reply ''Ok'' (messageId ?w0)] (device w) (strength w) None =
     (Returned (),
      ?w0\<lparr> invoked := invoked ?w0 @ [CallVibrate (device w) (strength w)],
         messageId := messageId ?w0 + 1,
         pendingMessages := pendingMessages ?w0 - {messageId ?w0},
         sent := sent ?w0 @ [(''ScalarCmd'', messageId ?w0,
                   ScalarList (device w) (scalarsFor (motors spec) (Math_max (Finite 0) (Math_min (Finite 1) (strength w))) None))] \<rparr>, [])"
    by (rule vibrate_Ok [where dev = dev]) (use a in \<open>simp_all add: say_def\<close>)
  with a show ?thesis
    by (auto simp: onSessionStateMessage_def Let_def bestEffort_def say_def)
qed

lemma signal_falling:
  "online w \<Longrightarrow> idle w \<Longrightarrow> map_of (devices w) (device w) = Some dev \<Longrightarrow>
   messageId w = k \<Longrightarrow> \<not> c > 0 \<Longrightarrow> lastWorkingCount w > 0 \<Longrightarrow>
   onSessionStateMessage w [reply ''Ok'' k] (StateMessage c) =
     (Returned (),
      w\<lparr> console := console w @ [LogStoppingVibration],
         invoked := invoked w @ [CallStop (device w)],
         messageId := k + 1,
         pendingMessages := pendingMessages w - {k},
         sent := sent w @ [(''StopDeviceCmd'', k, DeviceTarget (device w))],
         lastWorkingCount := c \<rparr>, [])"
proof -
  assume a: "online w" "idle w" "map_of (devices w) (device w) = Some dev"
    "messageId w = k" "\<not> c > 0" "lastWorkingCount w > 0"
  let ?w0 = "say LogStoppingVibration w"
  have "stop ?w0 [reply ''Ok'' (messageId ?w0)] (device w) =
     (Returned (),
      ?w0\<lparr> invoked := invoked ?w0 @ [CallStop (device w)],
         messageId := messageId ?w0 + 1,
         pendingMessages := pendingMessages ?w0 - {messageId ?w0},
         sent := sent ?w0 @ [(''StopDeviceCmd'', messageId ?w0, DeviceTarget (device w))] \<rparr>, [])"
    by (rule stop_Ok [where dev = dev]) (use a in \<open>simp_all add: say_def\<close>)
  with a show ?thesis
    by (auto simp: onSessionStateMessage_def Let_def bestEffort_def say_def)
qed

lemma connected_fields [simp]:
  "online connected" "idle connected" "messageId connected = 4"
  "device connected = 0" "strength connected = Finite 0.15" "lastWorkingCount connected = 0"
  "invoked connected = []" "pendingMessages connected = {}"
  "devices connected =
     [(0, \<lparr>index = 0, name = ''Demo'',
            capabilities = \<lparr>vibrate_cap = Some \<lparr>motors = 3, steps = [20, 20, 10]\<rparr>,
                             rotate_cap = None, linear_cap = None\<rparr>\<rparr>)]"
  by (simp_all add: connected_eq online_def idle_def readyState_def hasSocket_def)

lemma demo_feed:
  "feed connected demoSignals =
     [(Returned (), []), (Returned (), []), (Returned (), [CallVibrate 0 (Finite 0.15)]),
      (Returned (), []), (Returned (), [CallStop 0]), (Returned (), [CallVibrate 0 (Finite 0.15)]),
      (Returned (), [CallStop 0])]"
  unfolding demoSignals_def
  by (simp add: signal_same signal_rising signal_falling world_def outcome_def)


section \<open>Frame routing and the frames sent\<close>

lemma routedI: "routed w (w\<lparr> devices := d, pendingMessages := p, console := c \<rparr>)"
  unfolding routed_def by blast

lemma routed_refl [simp]: "routed w w"
proof -
  have "w = w\<lparr> devices := devices w, pendingMessages := pendingMessages w, console := console w \<rparr>"
    by simp
  then show ?thesis unfolding routed_def by blast
qed

lemma routed_trans: "routed w w1 \<Longrightarrow> routed w1 w2 \<Longrightarrow> routed w w2"
proof -
  assume "routed w w1" "routed w1 w2"
  then obtain d p c d' p' c' where
    "w1 = w\<lparr> devices := d, pendingMessages := p, console := c \<rparr>"
    "w2 = w1\<lparr> devices := d', pendingMessages := p', console := c' \<rparr>"
    unfolding routed_def by blast
  then have "w2 = w\<lparr> devices := d', pendingMessages := p', console := c' \<rparr>" by simp
  then show ?thesis using routedI by simp
qed

lemma routed_say [simp]: "routed w (say l w)"
  using routedI [where w = w and d = "devices w" and p = "pendingMessages w"
      and c = "console w @ [l]"]
  by (simp add: say_def)

lemma routed_addDevice [simp]: "routed w (addDevice l w d)"
  using routedI [where w = w
      and d = "AList.update (index (parseDevice d)) (parseDevice d) (devices w)"
      and p = "pendingMessages w"
      and c = "console w @ [l (name (parseDevice d)) (index (parseDevice d))]"]
  by (simp add: addDevice_def say_def Let_def)

lemma routed_foldl_addDevice [simp]: "routed w (foldl (addDevice l) w ds)"
proof (induction ds arbitrary: w)
  case Nil
  show ?case by simp
next
  case (Cons d ds)
  have "routed w (addDevice l w d)" by simp
  with Cons.IH [of "addDevice l w d"] show ?case using routed_trans by fastforce
qed

lemma routed_settle: "settle w k r = (w1, s) \<Longrightarrow> routed w w1"
  using routedI [where w = w and d = "devices w" and p = "pendingMessages w - {k}"
      and c = "console w"]
  by (auto simp: settle_def split: if_splits)

lemma routed_settle_fst [simp]: "routed w (fst (settle w k r))"
  by (cases "settle w k r") (simp add: routed_settle)

lemma routed_settle_list:
  "settle (foldl (addDevice l) w ds) k r = (w1, s) \<Longrightarrow> routed w w1"
  using routed_settle routed_trans routed_foldl_addDevice by blast

lemma routed_remove: "routed w (say l (w\<lparr> devices := d \<rparr>))"
  using routedI [where w = w and d = d and p = "pendingMessages w" and c = "console w @ [l]"]
  by (simp add: say_def)

lemma routed_handleEntry:
  "(case handleEntry w m of Inl e \<Rightarrow> True | Inr (w1, s) \<Rightarrow> routed w w1)"
  unfolding handleEntry_def
  by (simp add: Let_def routed_remove routed_settle routed_settle_list
        split: list.split Body.split option.split prod.split)

lemma routed_handleEntries: "handleEntries w ms acc = (w1, s) \<Longrightarrow> routed w w1"
proof (induction ms arbitrary: w acc)
  case Nil
  then show ?case by simp
next
  case (Cons m ms)
  show ?case
  proof (cases "handleEntry w m")
    case (Inl e)
    with Cons.prems show ?thesis by auto
  next
    case (Inr r)
    obtain w2 s2 where r: "r = (w2, s2)" by (cases r)
    from routed_handleEntry [of w m] Inr r have "routed w w2" by simp
    moreover from Cons.prems Inr r have "handleEntries w2 ms (acc @ s2) = (w1, s)" by simp
    ultimately show ?thesis using Cons.IH routed_trans by blast
  qed
qed

lemma routed_handleMessage: "handleMessage w f = (w1, s) \<Longrightarrow> routed w w1"
  by (cases f) (auto simp: handleMessage_def dest: routed_handleEntries)

lemma routed_fields:
  "routed w w1 \<Longrightarrow>
   ws w1 = ws w \<and> messageId w1 = messageId w \<and> connectionPromise w1 = connectionPromise w \<and>
   wsUrl w1 = wsUrl w \<and> attempts w1 = attempts w \<and>
   sockets w1 = sockets w \<and> sent w1 = sent w \<and>
   constructorThrows w1 = constructorThrows w \<and> frame w1 = frame w"
  unfolding routed_def by auto


lemma send_Inr:
  "send w t p = Inr (k, w1) \<Longrightarrow>
   k = messageId w \<and> ws w \<noteq> None \<and> readyState w = Some OPEN \<and>
   w1 = w\<lparr> messageId := messageId w + 1,
           pendingMessages := insert (messageId w) (pendingMessages w),
           sent := sent w @ [(t, messageId w, p)] \<rparr>"
  by (auto simp: send_def nextId_def split: if_splits)

lemma sent_amend [simp]: "sent (amend k f w) = sent w"
  by (simp add: amend_def)

lemma sent_settleAttempt [simp]: "sent (settleAttempt k r w) = sent w"
  by (simp add: settleAttempt_def)

lemma sent_closeWs [simp]: "sent (closeWs w) = sent w"
  by (simp add: closeWs_def split: option.split)

lemma sent_handlerSend: "prefix (sent w) (sent (handlerSend k w t p n))"
  by (cases "send w t p")
     (auto simp: handlerSend_def endHandler_def rejectAttempt_def dest!: send_Inr)

lemma sent_resume: "prefix (sent w) (sent (resume k w s))"
proof -
  have "prefix (sent w) (sent (handlerSend k (say l w) t p n))" for l t p n
    using sent_handlerSend [of "say l w" k t p n] by (simp add: say_def)
  then show ?thesis
    by (simp add: resume_def endHandler_def rejectAttempt_def resolveAttempt_def say_def
          sent_handlerSend split: Stage.split Settled.split)
qed

lemma sent_resume_each: "prefix (sent w) (sent (foldl (\<lambda>w k. resume k w s) w ks))"
proof (induction ks arbitrary: w)
  case Nil
  show ?case by simp
next
  case (Cons k ks)
  from sent_resume [of w k s] Cons.IH [of "resume k w s"] show ?case
    by (simp add: prefix_order.order_trans [of "sent w" "sent (resume k w s)"])
qed

lemma sent_resumeAll: "prefix (sent w) (sent (resumeAll w s))"
  by (simp add: resumeAll_def sent_resume_each)

lemma sent_foldl_resume: "prefix (sent w) (sent (foldl resumeAll w ss))"
proof (induction ss arbitrary: w)
  case Nil
  show ?case by simp
next
  case (Cons s ss)
  from sent_resumeAll [of w s] Cons.IH [of "resumeAll w s"] show ?case
    by (simp add: prefix_order.order_trans [of "sent w" "sent (resumeAll w s)"])
qed

lemma sent_onopen: "prefix (sent w) (sent (onopen k w))"
  using sent_handlerSend [of "say LogConnected (amend k (\<lambda>a. a\<lparr> timer := False \<rparr>) w)" k
      "''RequestServerInfo''" "ClientInfo ''Familiar'' 3" AwaitServerInfo]
  by (simp add: onopen_def say_def)

lemma sent_dispatch: "dispatch w ev = (w1, s) \<Longrightarrow> prefix (sent w) (sent w1)"
proof (cases ev)
  case (EvOpen k)
  assume "dispatch w ev = (w1, s)"
  with EvOpen have "w1 = w \<or> w1 = onopen k (amend k (\<lambda>a. a\<lparr> socket := Some OPEN \<rparr>) w)"
    by (auto simp: dispatch_def split: if_splits)
  with sent_onopen [of "amend k (\<lambda>a. a\<lparr> socket := Some OPEN \<rparr>) w" k]
  show ?thesis by auto
next
  case (EvMessage k f)
  assume d: "dispatch w ev = (w1, s)"
  obtain w2 s2 where h: "handleMessage w f = (w2, s2)" by (cases "handleMessage w f")
  with d EvMessage have "w1 = foldl resumeAll w2 s2 \<or> w1 = w"
    by (auto simp: dispatch_def split: if_splits)
  with routed_fields [OF routed_handleMessage [OF h]] sent_foldl_resume [of w2 s2]
  show ?thesis by auto
qed (auto simp: dispatch_def onerror_def onclose_def ontimeout_def rejectAttempt_def say_def
       split: if_splits)

lemma sent_awaitReply: "awaitReply w k evs = (r, w1, evs1) \<Longrightarrow> prefix (sent w) (sent w1)"
proof (induction evs arbitrary: w)
  case Nil
  then show ?case by simp
next
  case (Cons ev evs)
  obtain w2 s2 where d: "dispatch w ev = (w2, s2)" by (cases "dispatch w ev")
  have f: "prefix (sent w) (sent w2)" using sent_dispatch [OF d] .
  show ?case
  proof (cases "map_of s2 k")
    case None
    with Cons.prems d have "awaitReply w2 k evs = (r, w1, evs1)" by simp
    from Cons.IH [OF this] f show ?thesis by (rule prefix_order.order_trans [rotated])
  next
    case (Some x)
    with Cons.prems d f show ?thesis by (cases x) auto
  qed
qed

lemma scalarsFor_length: "length (scalarsFor n c m) = n"
  by (simp add: scalarsFor_def)

lemma scalarsFor_nth:
  "k < n \<Longrightarrow>
   scalarsFor n c m ! k =
     \<lparr> Index = k, Scalar = (if m = None \<or> m = Some (int k) then c else Finite 0),
       ActuatorType_out = ''Vibrate'' \<rparr>"
  by (simp add: scalarsFor_def)

lemma vibrate_connected:
  assumes "readyState w = Some OPEN" "map_of (devices w) i = Some dev"
    "vibrate_cap (capabilities dev) = Some spec"
  shows "prefix (sent w @ [(''ScalarCmd'', messageId w,
                    ScalarList i (scalarsFor (motors spec) (Math_max (Finite 0) (Math_min (Finite 1) s)) m))])
           (sent (world (vibrate w evs i s m)))"
    and "sent (world (vibrate w [] i s m)) =
           sent w @ [(''ScalarCmd'', messageId w,
                      ScalarList i (scalarsFor (motors spec) (Math_max (Finite 0) (Math_min (Finite 1) s)) m))]"
proof -
  let ?w0 = "w\<lparr> invoked := invoked w @ [CallVibrate i s] \<rparr>"
  let ?p = "ScalarList i (scalarsFor (motors spec) (Math_max (Finite 0) (Math_min (Finite 1) s)) m)"
  let ?w1 = "?w0\<lparr> messageId := messageId ?w0 + 1,
           pendingMessages := insert (messageId ?w0) (pendingMessages ?w0),
           sent := sent ?w0 @ [(''ScalarCmd'', messageId ?w0, ?p)] \<rparr>"
  from assms(1) have o: "ws w \<noteq> None" by (auto simp: readyState_def split: option.splits)
  from assms(2) have "devices w \<noteq> []" by auto
  then have e: "ensureConnected ?w0 es = (Returned (), ?w0, es)" for es
    using assms(1) o by (simp add: ensureConnected_def isConnected_def waitForDevice_ready)
  have sd: "send ?w0 ''ScalarCmd'' ?p = Inr (messageId w, ?w1)"
    using assms(1) o by (simp add: send_def nextId_def)
  have v: "vibrate w es i s m =
        (case awaitReply ?w1 (messageId w) es of
           (Returned c, w2, evs2) \<Rightarrow> (Returned (), w2, evs2)
         | (Threw err, w2, evs2) \<Rightarrow> (Threw err, w2, evs2)
         | (Unsettled, w2, evs2) \<Rightarrow> (Unsettled, w2, evs2))" for es
    unfolding vibrate_def e using assms sd by (simp add: Let_def sendAwait_def)
  obtain r w2 evs2 where a: "awaitReply ?w1 (messageId w) evs = (r, w2, evs2)"
    by (cases "awaitReply ?w1 (messageId w) evs")
  have "world (vibrate w evs i s m) = w2"
    unfolding v a by (cases r) (simp_all add: world_def)
  with sent_awaitReply [OF a] show "prefix (sent w @ [(''ScalarCmd'', messageId w, ?p)])
           (sent (world (vibrate w evs i s m)))"
    by simp
  show "sent (world (vibrate w [] i s m)) = sent w @ [(''ScalarCmd'', messageId w, ?p)]"
    unfolding v by (simp add: world_def)
qed


lemma connected_open [simp]:
  "ws connected = Some 0" "readyState connected = Some OPEN" "hasSocket connected 0"
  by (simp_all add: connected_eq readyState_def hasSocket_def)

lemma connected_ready: "ensureConnected connected evs = (Returned (), connected, evs)"
  by (simp add: ensureConnected_def isConnected_def waitForDevice_ready)

lemma connected_battery_error:
  "sendAwait connected [replyError 4 ''no battery''] ''BatteryLevelCmd'' (DeviceTarget 0) =
     (Threw (ServerError (Some ''no battery'')),
      connected\<lparr> messageId := 5,
                 sent := sent connected @ [(''BatteryLevelCmd'', 4, DeviceTarget 0)] \<rparr>, [])"
  by (simp add: sendAwait_def send_def nextId_def replyError_def dispatch_def handleMessage_def
        handleEntry_def settle_def resumeAll_idle Let_def)




section \<open>The connect attempts\<close>

lemma connecting_eq:
  "connecting = (initial demoUrl)
     \<lparr> ws := Some 0, connectionPromise := Some 0,
       attempts := [\<lparr> promise = Pending, socket = Some CONNECTING, timer = True,
                      stage = NotRunning \<rparr>],
       sockets := 1, console := [LogConnecting demoUrl] \<rparr>"
  by (simp add: connecting_def connect_def initial_def say_def readyState_def demoUrl_def Let_def)

lemma opened_eq:
  "opened = (initial demoUrl)
     \<lparr> ws := Some 0, messageId := 2, pendingMessages := {1}, connectionPromise := Some 0,
       attempts := [\<lparr> promise = Pending, socket = Some OPEN, timer = False,
                      stage = AwaitServerInfo 1 \<rparr>],
       sockets := 1,
       sent := [(''RequestServerInfo'', 1, ClientInfo ''Familiar'' 3)],
       console := [LogConnecting demoUrl, LogConnected] \<rparr>"
  by (simp add: opened_def connecting_eq deliver_def dispatch_def onopen_def handlerSend_def
        send_def nextId_def say_def initial_def readyState_def hasSocket_def amend_def Let_def)


lemma timed_out:
  "ensureConnected (initial demoUrl) [EvTimeout 0] =
     (Threw ConnectionTimeout,
      (initial demoUrl)\<lparr> ws := Some 0,
         attempts := [\<lparr> promise = Failed ConnectionTimeout, socket = Some CLOSING,
                        timer = False, stage = NotRunning \<rparr>],
         console := [LogConnecting demoUrl], sockets := 1 \<rparr>, [])"
  by (simp add: ensureConnected_def isConnected_def connect_def initial_def say_def Let_def
        promiseState_def dispatch_def ontimeout_def rejectAttempt_def settleAttempt_def
        closeSocket_def closeWs_def amend_def timerArmed_def readyState_def demoUrl_def)

subsection \<open>What one attempt owns\<close>

lemma nth_amended: "(\<And>a. f (g a) = f a) \<Longrightarrow> f (xs[j := g (xs ! j)] ! k) = f (xs ! k)"
  apply (cases "j < length xs")
   apply (cases "j = k")
    apply simp
   apply simp
  apply (simp add: list_update_beyond)
  done

lemma promiseState_amend [simp]:
  "(\<And>a. promise (f a) = promise a) \<Longrightarrow> promiseState (amend j f w) k = promiseState w k"
  by (simp add: promiseState_def amend_def nth_amended)

lemma timerArmed_amend [simp]:
  "(\<And>a. timer (f a) = timer a) \<Longrightarrow> timerArmed (amend j f w) k = timerArmed w k"
  by (simp add: timerArmed_def amend_def nth_amended)

lemma stageOf_amend [simp]:
  "(\<And>a. stage (f a) = stage a) \<Longrightarrow> stageOf (amend j f w) k = stageOf w k"
  by (simp add: stageOf_def amend_def nth_amended)

lemma hasSocket_amend [simp]:
  "(\<And>a. socket (f a) = socket a) \<Longrightarrow> hasSocket (amend j f w) k = hasSocket w k"
  by (simp add: hasSocket_def amend_def nth_amended)

lemma readyState_amend [simp]:
  "(\<And>a. socket (f a) = socket a) \<Longrightarrow> readyState (amend j f w) = readyState w"
  by (simp add: readyState_def amend_def nth_amended split: option.split)




lemma hasSocket_socket:
  "hasSocket (amend j (\<lambda>a. a\<lparr> socket := Some x \<rparr>) w) k =
     (if j = k \<and> k < length (attempts w) then True else hasSocket w k)"
  by (cases "j = k") (auto simp: hasSocket_def amend_def)

lemma amend_fields [simp]:
  "ws (amend k f w) = ws w" "devices (amend k f w) = devices w"
  "messageId (amend k f w) = messageId w" "pendingMessages (amend k f w) = pendingMessages w"
  "connectionPromise (amend k f w) = connectionPromise w" "wsUrl (amend k f w) = wsUrl w"
  "sockets (amend k f w) = sockets w" "console (amend k f w) = console w"
  "constructorThrows (amend k f w) = constructorThrows w"
  "length (attempts (amend k f w)) = length (attempts w)"
  by (simp_all add: amend_def)


lemma timerArmed_settle [simp]: "timerArmed (settleAttempt j r w) k = timerArmed w k"
  by (simp add: settleAttempt_def)

lemma stageOf_settle [simp]: "stageOf (settleAttempt j r w) k = stageOf w k"
  by (simp add: settleAttempt_def)

lemma settle_fields [simp]:
  "ws (settleAttempt k r w) = ws w" "connectionPromise (settleAttempt k r w) = connectionPromise w"
  "sockets (settleAttempt k r w) = sockets w"
  "length (attempts (settleAttempt k r w)) = length (attempts w)"
  "messageId (settleAttempt k r w) = messageId w"
  by (simp_all add: settleAttempt_def)

lemma readyState_settle [simp]: "readyState (settleAttempt j r w) = readyState w"
  by (simp add: settleAttempt_def)

lemma hasSocket_settle [simp]: "hasSocket (settleAttempt j r w) k = hasSocket w k"
  by (simp add: settleAttempt_def)

lemma readyState_open: "readyState w = Some OPEN \<Longrightarrow> ws w \<noteq> None"
  by (auto simp: readyState_def split: option.splits)

lemma handlerSend_cases:
  "(readyState w \<noteq> Some OPEN \<and>
      handlerSend k w t p n = endHandler k (settleAttempt k (Failed NotConnected) w)) \<or>
   (readyState w = Some OPEN \<and>
      handlerSend k w t p n =
        amend k (\<lambda>a. a\<lparr> stage := n (messageId w) \<rparr>)
          (w\<lparr> messageId := messageId w + 1,
              pendingMessages := insert (messageId w) (pendingMessages w),
              sent := sent w @ [(t, messageId w, p)] \<rparr>))"
  using readyState_open [of w]
  by (auto simp: handlerSend_def send_def nextId_def rejectAttempt_def)




lemma sockets_handlerSend [simp]: "sockets (handlerSend k w t p n) = sockets w"
  using handlerSend_cases [of w k t p n] by (auto simp: endHandler_def)

lemma sockets_resume [simp]: "sockets (resume k w s) = sockets w"
  by (simp add: resume_def endHandler_def rejectAttempt_def resolveAttempt_def
        say_def split: Stage.split Settled.split)

lemma sockets_resume_each [simp]: "sockets (foldl (\<lambda>w k. resume k w s) w ks) = sockets w"
  by (induction ks arbitrary: w) simp_all

lemma sockets_resumeAll [simp]: "sockets (resumeAll w s) = sockets w"
  by (simp add: resumeAll_def)

lemma sockets_foldl_resume [simp]: "sockets (foldl resumeAll w ss) = sockets w"
  by (induction ss arbitrary: w) simp_all

lemma sockets_closeWs [simp]: "sockets (closeWs w) = sockets w"
  by (simp add: closeWs_def split: option.split)



lemma closeWs_fields [simp]:
  "promiseState (closeWs w) k = promiseState w k" "timerArmed (closeWs w) k = timerArmed w k"
  "stageOf (closeWs w) k = stageOf w k" "connectionPromise (closeWs w) = connectionPromise w"
  "length (attempts (closeWs w)) = length (attempts w)" "ws (closeWs w) = ws w"
  by (simp_all add: closeWs_def split: option.split)


subsection \<open>The steps of an attempt\<close>












section \<open>Claims about the presence controller\<close>

text \<open>
  Claim C5. In every state the presence operations (\<open>setState\<close>, \<open>start\<close>, \<open>toggle\<close>,
  \<open>restore\<close>, the work-signal bridge) reach from the initial state, \<open>since\<close> is set if and
  only if \<open>active\<close> is true. \<open>setState\<close> sets \<open>since\<close> to the current time only when the
  state goes from idle to active, clears it when the new state is idle, and keeps it when
  the state was active already, so a repeated \<open>start\<close> does not reset the timestamp.
\<close>

theorem since_iff_active:
  "(since (performAll ((initial url)\<lparr> constructorThrows := b \<rparr>) cs) \<noteq> None)
     = active (performAll ((initial url)\<lparr> constructorThrows := b \<rparr>) cs) \<and>
   since (world (setState w evs now a d s)) =
     (if a then (if active w then since w else Some now) else None) \<and>
   active (world (start w evs now d s)) \<and>
   since (world (start (world (start w evs now d s)) evs' now' d' s'))
     = since (world (start w evs now d s))"
proof -
  have "sinceIffActive ((initial url)\<lparr> constructorThrows := b \<rparr>)"
    by (simp add: sinceIffActive_def initial_def)
  from performAll_invariant [OF this, of cs] show ?thesis
    by (simp add: sinceIffActive_def start_def setState_fields)
qed

text \<open>
  Claim C10. For every presence state (one in which \<open>since\<close> is set exactly when \<open>active\<close>
  holds), \<open>restore\<close> returns at once and leaves the whole object as it was: the presence
  fields are unchanged and neither \<open>vibrate\<close> nor \<open>stop\<close> is invoked. In any state at all
  it returns, makes no actuation call, sends nothing, and keeps \<open>active\<close>, \<open>device\<close> and
  \<open>strength\<close>.
\<close>

theorem restore_identity:
  "((since w \<noteq> None) = active w \<longrightarrow> restore w evs now = (Returned (), w, evs)) \<and>
   outcome (restore w evs now) = Returned () \<and>
   active (world (restore w evs now)) = active w \<and>
   device (world (restore w evs now)) = device w \<and>
   strength (world (restore w evs now)) = strength w \<and>
   since (world (restore w evs now)) = (if active w then since w else None) \<and>
   invoked (world (restore w evs now)) = invoked w \<and>
   sent (world (restore w evs now)) = sent w"
  by (auto simp: restore_def setState_def Let_def world_def outcome_def)

theorem restore_identity_witness:
  "(since (connected\<lparr> active := True, since := Some ''2024-05-01T10:00:00.000Z'' \<rparr>) \<noteq> None)
     = active (connected\<lparr> active := True, since := Some ''2024-05-01T10:00:00.000Z'' \<rparr>) \<and>
   restore (connected\<lparr> active := True, since := Some ''2024-05-01T10:00:00.000Z'' \<rparr>)
       [] ''2024-05-01T11:00:00.000Z''
     = (Returned (), connected\<lparr> active := True, since := Some ''2024-05-01T10:00:00.000Z'' \<rparr>, [])"
proof -
  let ?w = "connected\<lparr> active := True, since := Some ''2024-05-01T10:00:00.000Z'' \<rparr>"
  have h: "(since ?w \<noteq> None) = active ?w" by simp
  from restore_identity [of ?w "[]" "''2024-05-01T11:00:00.000Z''"] h
  have "restore ?w [] ''2024-05-01T11:00:00.000Z'' = (Returned (), ?w, [])" by blast
  with h show ?thesis by blast
qed

text \<open>
  Claim C2, as amended. When every notification is handled to completion, the actuation
  calls made per notification are those of the edge rule: a start when the count becomes
  positive, a stop when it stops being positive, nothing otherwise. For the counts
  0, 0, 3, 3, 0, 5, 0 after a last count of 0 these are exactly four calls: a start at
  index 2, a stop at index 4, a start at index 5 and a stop at index 6. A change of
  magnitude alone (3 to 5) triggers nothing. Whatever the outcome of a call, it invokes the
  actuation layer exactly when the count crosses between zero and positive.
\<close>

theorem work_signal_edges:
  "(map fst (feed w xs) = replicate (length xs) (Returned ()) \<longrightarrow>
      map snd (feed w xs) = edges (device w) (strength w) (lastWorkingCount w) (map fst xs)) \<and>
   edges d s 0 [0, 0, 3, 3, 0, 5, 0] =
     [[], [], [CallVibrate d s], [], [CallStop d], [CallVibrate d s], [CallStop d]] \<and>
   edges d s 3 [5] = [[]] \<and>
   invoked (world (onSessionStateMessage w evs (StateMessage c))) =
     invoked w @
       (if (c > 0) = (lastWorkingCount w > 0) then []
        else if c > 0 then [CallVibrate (device w) (strength w)] else [CallStop (device w)])"
  using feed_edges [of w xs] frame_signal [of w evs c] by (simp add: frame_def)

theorem work_signal_edges_witness:
  "map fst (feed connected demoSignals) = replicate (length demoSignals) (Returned ()) \<and>
   map snd (feed connected demoSignals) =
     [[], [], [CallVibrate 0 (Finite 0.15)], [], [CallStop 0], [CallVibrate 0 (Finite 0.15)], [CallStop 0]]"
proof -
  have l: "length demoSignals = 7" and c: "map fst demoSignals = [0, 0, 3, 3, 0, 5, 0]"
    by (simp_all add: demoSignals_def)
  have h: "map fst (feed connected demoSignals) = replicate (length demoSignals) (Returned ())"
    by (simp add: demo_feed l eval_nat_numeral)
  from work_signal_edges [of connected demoSignals] h
  have "map snd (feed connected demoSignals) =
      edges (device connected) (strength connected) (lastWorkingCount connected)
        (map fst demoSignals)"
    by blast
  then have "map snd (feed connected demoSignals) =
      [[], [], [CallVibrate 0 (Finite 0.15)], [], [CallStop 0], [CallVibrate 0 (Finite 0.15)], [CallStop 0]]"
    by (simp add: c)
  with h show ?thesis by blast
qed

text \<open>The count of the claim as stated fails: the run of the example makes four actuation
  calls, not three.\<close>

theorem work_signal_three_counterexample:
  "map fst (feed connected demoSignals) = replicate 7 (Returned ()) \<and>
   concat (map snd (feed connected demoSignals)) =
     [CallVibrate 0 (Finite 0.15), CallStop 0, CallVibrate 0 (Finite 0.15), CallStop 0] \<and>
   length (concat (map snd (feed connected demoSignals))) \<noteq> 3"
  by (simp add: demo_feed eval_nat_numeral)


section \<open>Claims about the actuation layer\<close>

lemma clamp_range:
  "s \<noteq> NaN \<Longrightarrow> \<exists>c. Math_max (Finite 0) (Math_min (Finite 1) s) = Finite c \<and> 0 \<le> c \<and> c \<le> 1"
  by (cases s) simp_all

lemma vibrate_after:
  assumes "ensureConnected (w\<lparr> invoked := invoked w @ [CallVibrate i s] \<rparr>) evs
             = (Returned u, w1, evs1)"
    and "map_of (devices w1) i = Some dev" and "vibrate_cap (capabilities dev) = Some spec"
  shows "readyState w1 = Some OPEN \<Longrightarrow>
           prefix (sent w1 @ [(''ScalarCmd'', messageId w1,
                      ScalarList i (scalarsFor (motors spec) (Math_max (Finite 0) (Math_min (Finite 1) s)) m))])
             (sent (world (vibrate w evs i s m)))"
    and "readyState w1 = Some OPEN \<Longrightarrow> evs1 = [] \<Longrightarrow>
           sent (world (vibrate w evs i s m)) =
             sent w1 @ [(''ScalarCmd'', messageId w1,
                         ScalarList i (scalarsFor (motors spec) (Math_max (Finite 0) (Math_min (Finite 1) s)) m))]"
    and "readyState w1 \<noteq> Some OPEN \<Longrightarrow>
           vibrate w evs i s m = (Threw NotConnected, w1, evs1)"
proof -
  let ?p = "ScalarList i (scalarsFor (motors spec) (Math_max (Finite 0) (Math_min (Finite 1) s)) m)"
  let ?w2 = "w1\<lparr> messageId := messageId w1 + 1,
           pendingMessages := insert (messageId w1) (pendingMessages w1),
           sent := sent w1 @ [(''ScalarCmd'', messageId w1, ?p)] \<rparr>"
  have v: "vibrate w evs i s m =
        (case sendAwait w1 evs1 ''ScalarCmd'' ?p of
           (Returned c, w2, evs2) \<Rightarrow> (Returned (), w2, evs2)
         | (Threw err, w2, evs2) \<Rightarrow> (Threw err, w2, evs2)
         | (Unsettled, w2, evs2) \<Rightarrow> (Unsettled, w2, evs2))"
    unfolding vibrate_def using assms by (simp add: Let_def)
  show "vibrate w evs i s m = (Threw NotConnected, w1, evs1)" if "readyState w1 \<noteq> Some OPEN"
    unfolding v using that by (simp add: sendAwait_def send_def)
  have sd: "sendAwait w1 evs1 ''ScalarCmd'' ?p = awaitReply ?w2 (messageId w1) evs1"
    if "readyState w1 = Some OPEN"
    using that readyState_open [OF that] by (auto simp: sendAwait_def send_def nextId_def)
  obtain r w3 evs3 where a: "awaitReply ?w2 (messageId w1) evs1 = (r, w3, evs3)"
    by (cases "awaitReply ?w2 (messageId w1) evs1")
  show "prefix (sent w1 @ [(''ScalarCmd'', messageId w1, ?p)])
          (sent (world (vibrate w evs i s m)))" if o: "readyState w1 = Some OPEN"
  proof -
    have "world (vibrate w evs i s m) = w3"
      unfolding v sd [OF o] a by (cases r) (simp_all add: world_def)
    with sent_awaitReply [OF a] show ?thesis by simp
  qed
  show "sent (world (vibrate w evs i s m)) = sent w1 @ [(''ScalarCmd'', messageId w1, ?p)]"
    if o: "readyState w1 = Some OPEN" and "evs1 = []"
    unfolding v sd [OF o] using that(2) by (simp add: world_def)
qed

lemma listening_eq:
  "listening = connected\<lparr> devices := [],
     console := [LogConnecting demoUrl, LogConnected, LogHandshakeComplete,
                 LogStartedScanning] \<rparr>"
  unfolding listening_def connected_eq by (simp add: run_defs)

lemma closing_eq:
  "closing = connected\<lparr>
     attempts := [\<lparr> promise = Fulfilled, socket = Some CLOSING, timer = False,
                    stage = NotRunning \<rparr>],
     console := [LogConnecting demoUrl, LogConnected, LogHandshakeComplete,
                 LogStartedScanning, LogDeviceAdded ''Demo'' 0],
     invoked := [CallVibrate 0 (Finite 0.5)] \<rparr>"
  unfolding closing_def listening_eq connected_eq announced_def
  by (simp add: run_defs closeSocket_def)

lemma closing_fields:
  "readyState closing = Some CLOSING"
  "map_of (devices closing) 0 =
     Some \<lparr>index = 0, name = ''Demo'',
           capabilities = \<lparr>vibrate_cap = Some \<lparr>motors = 3, steps = [20, 20, 10]\<rparr>,
                            rotate_cap = None, linear_cap = None\<rparr>\<rparr>"
  by (simp_all add: closing_eq connected_eq readyState_def)

lemma waitForDevice_slept:
  "devices w = [] \<Longrightarrow> sleep w evs = (True, w1, evs1) \<Longrightarrow> devices w1 \<noteq> [] \<Longrightarrow>
   waitForDevice 10 w evs = (Returned (), w1, evs1)"
  by (simp add: eval_nat_numeral)

lemma listening_closing:
  "ensureConnected (listening\<lparr> invoked := invoked listening @ [CallVibrate 0 (Finite 0.5)] \<rparr>)
       [announced, EvClosing 0, EvTick]
     = (Returned (), closing, [])"
proof -
  let ?w = "listening\<lparr> invoked := invoked listening @ [CallVibrate 0 (Finite 0.5)] \<rparr>"
  have c: "isConnected ?w" "devices ?w = []"
    by (simp_all add: listening_eq isConnected_def)
  have d: "devices closing \<noteq> []" by (simp add: closing_eq)
  have s: "sleep ?w [announced, EvClosing 0, EvTick] = (True, closing, [])"
    by (simp add: closing_def deliver_def announced_def)
  from c(1) waitForDevice_slept [OF c(2) s d] show ?thesis
    unfolding ensureConnected_def by simp
qed

text \<open>
  Claim C6, as amended. Once the readiness wait has returned, for every registered device
  with a vibrate capability \<open>vibrate\<close> builds the scalar array from
  \<^verbatim>\<open>Math.max(0, Math.min(1, strength))\<close> and, the socket being open, sends one \<^verbatim>\<open>ScalarCmd\<close>
  for that device with it (with the socket not open the call fails and sends nothing). The
  array has exactly one entry per motor, entry \<open>k\<close> has index \<open>k\<close> and actuator type
  "Vibrate", and when a motor is given only the entry of that index carries the computed
  strength and every other entry carries 0. For every strength other than \<^verbatim>\<open>NaN\<close> the
  computed strength is a number from 0 to 1. For a strength of 0.5, motor 1 and three motors
  the array is (0, 0), (1, 0.5), (2, 0).
\<close>

theorem vibrate_scalars:
  "(ensureConnected (w\<lparr> invoked := invoked w @ [CallVibrate i s] \<rparr>) evs
      = (Returned u, w1, evs1) \<and>
    map_of (devices w1) i = Some dev \<and> vibrate_cap (capabilities dev) = Some spec \<longrightarrow>
      (readyState w1 = Some OPEN \<longrightarrow>
         prefix (sent w1 @ [(''ScalarCmd'', messageId w1,
                   ScalarList i (scalarsFor (motors spec) (Math_max (Finite 0) (Math_min (Finite 1) s)) m))])
           (sent (world (vibrate w evs i s m))) \<and>
         (evs1 = [] \<longrightarrow>
            sent (world (vibrate w evs i s m)) =
              sent w1 @ [(''ScalarCmd'', messageId w1,
                          ScalarList i (scalarsFor (motors spec) (Math_max (Finite 0) (Math_min (Finite 1) s)) m))])) \<and>
      (readyState w1 \<noteq> Some OPEN \<longrightarrow>
         vibrate w evs i s m = (Threw NotConnected, w1, evs1))) \<and>
   length (scalarsFor n c m) = n \<and>
   (\<forall>k < n. scalarsFor n c m ! k =
      \<lparr> Index = k,
        Scalar = (if m = None \<or> m = Some (int k) then c else Finite 0),
        ActuatorType_out = ''Vibrate'' \<rparr>) \<and>
   (s \<noteq> NaN \<longrightarrow>
      (\<exists>x. Math_max (Finite 0) (Math_min (Finite 1) s) = Finite x \<and> 0 \<le> x \<and> x \<le> 1)) \<and>
   scalarsFor 3 (Math_max (Finite 0) (Math_min (Finite 1) (Finite 0.5))) (Some 1) =
     [\<lparr> Index = 0, Scalar = Finite 0, ActuatorType_out = ''Vibrate'' \<rparr>,
      \<lparr> Index = 1, Scalar = Finite 0.5, ActuatorType_out = ''Vibrate'' \<rparr>,
      \<lparr> Index = 2, Scalar = Finite 0, ActuatorType_out = ''Vibrate'' \<rparr>]"
proof -
  have "scalarsFor 3 (Math_max (Finite 0) (Math_min (Finite 1) (Finite 0.5))) (Some 1) =
     [\<lparr> Index = 0, Scalar = Finite 0, ActuatorType_out = ''Vibrate'' \<rparr>,
      \<lparr> Index = 1, Scalar = Finite 0.5, ActuatorType_out = ''Vibrate'' \<rparr>,
      \<lparr> Index = 2, Scalar = Finite 0, ActuatorType_out = ''Vibrate'' \<rparr>]"
    by (simp add: scalarsFor_def upt_rec)
  moreover have "s \<noteq> NaN \<longrightarrow>
      (\<exists>x. Math_max (Finite 0) (Math_min (Finite 1) s) = Finite x \<and> 0 \<le> x \<and> x \<le> 1)"
    using clamp_range by blast
  moreover have "length (scalarsFor n c m) = n \<and>
    (\<forall>k < n. scalarsFor n c m ! k =
      \<lparr> Index = k,
        Scalar = (if m = None \<or> m = Some (int k) then c else Finite 0),
        ActuatorType_out = ''Vibrate'' \<rparr>)"
    by (simp add: scalarsFor_length scalarsFor_nth)
  ultimately show ?thesis
    using vibrate_after [of w i s evs u w1 evs1 dev spec m] by blast
qed

theorem vibrate_scalars_witness:
  "ensureConnected (connected\<lparr> invoked := invoked connected @ [CallVibrate 0 (Finite 0.5)] \<rparr>) []
     = (Returned (), connected\<lparr> invoked := [CallVibrate 0 (Finite 0.5)] \<rparr>, []) \<and>
   map_of (devices connected) 0 =
     Some \<lparr>index = 0, name = ''Demo'',
           capabilities = \<lparr>vibrate_cap = Some \<lparr>motors = 3, steps = [20, 20, 10]\<rparr>,
                            rotate_cap = None, linear_cap = None\<rparr>\<rparr> \<and>
   readyState connected = Some OPEN \<and>
   sent (world (vibrate connected [] 0 (Finite 0.5) (Some 1))) =
     sent connected @
       [(''ScalarCmd'', 4,
         ScalarList 0
           [\<lparr> Index = 0, Scalar = Finite 0, ActuatorType_out = ''Vibrate'' \<rparr>,
            \<lparr> Index = 1, Scalar = Finite 0.5, ActuatorType_out = ''Vibrate'' \<rparr>,
            \<lparr> Index = 2, Scalar = Finite 0, ActuatorType_out = ''Vibrate'' \<rparr>])] \<and>
   ensureConnected (listening\<lparr> invoked := invoked listening @ [CallVibrate 0 (Finite 0.5)] \<rparr>)
       [announced, EvClosing 0, EvTick]
     = (Returned (), closing, []) \<and>
   readyState closing = Some CLOSING \<and> map_of (devices closing) 0 \<noteq> None \<and>
   vibrate listening [announced, EvClosing 0, EvTick] 0 (Finite 0.5) (Some 1)
     = (Threw NotConnected, closing, []) \<and>
   Math_max (Finite 0) (Math_min (Finite 1) (Finite 2)) = Finite 1 \<and>
   scalarsFor 3 (Finite 1) None ! 2 =
     \<lparr> Index = 2, Scalar = Finite 1, ActuatorType_out = ''Vibrate'' \<rparr>"
proof -
  let ?dev = "\<lparr>index = 0, name = ''Demo'',
           capabilities = \<lparr>vibrate_cap = Some \<lparr>motors = 3, steps = [20, 20, 10]\<rparr>,
                            rotate_cap = None, linear_cap = None\<rparr>\<rparr>"
  let ?spec = "\<lparr>motors = 3, steps = [20, 20, 10]\<rparr>"
  let ?w0 = "connected\<lparr> invoked := invoked connected @ [CallVibrate 0 (Finite 0.5)] \<rparr>"
  let ?evs = "[announced, EvClosing 0, EvTick]"
  have h: "ensureConnected ?w0 [] = (Returned (), ?w0, [])"
    "map_of (devices ?w0) 0 = Some ?dev" "vibrate_cap (capabilities ?dev) = Some ?spec"
    "readyState ?w0 = Some OPEN" "messageId ?w0 = 4" "sent ?w0 = sent connected"
    "invoked connected = []"
    by (simp_all add: ensureConnected_def isConnected_def waitForDevice_ready)
  note g = listening_closing closing_fields
  from vibrate_scalars [where w = connected and i = 0 and s = "Finite 0.5" and evs = "[]"
      and u = "()" and ?w1.0 = ?w0 and ?evs1.0 = "[]" and dev = ?dev and spec = ?spec
      and m = "Some 1"] h
  have 1: "sent (world (vibrate connected [] 0 (Finite 0.5) (Some 1))) =
      sent connected @ [(''ScalarCmd'', 4,
        ScalarList 0 (scalarsFor (motors ?spec)
          (Math_max (Finite 0) (Math_min (Finite 1) (Finite 0.5))) (Some 1)))]"
    by simp
  from vibrate_scalars [where m = "Some 1"]
  have 2: "scalarsFor 3 (Math_max (Finite 0) (Math_min (Finite 1) (Finite 0.5))) (Some 1) =
     [\<lparr> Index = 0, Scalar = Finite 0, ActuatorType_out = ''Vibrate'' \<rparr>,
      \<lparr> Index = 1, Scalar = Finite 0.5, ActuatorType_out = ''Vibrate'' \<rparr>,
      \<lparr> Index = 2, Scalar = Finite 0, ActuatorType_out = ''Vibrate'' \<rparr>]"
    by blast
  from vibrate_scalars [where w = listening and i = 0 and s = "Finite 0.5" and evs = ?evs
      and u = "()" and ?w1.0 = closing and ?evs1.0 = "[]" and dev = ?dev and spec = ?spec
      and m = "Some 1"] g
  have 3: "vibrate listening ?evs 0 (Finite 0.5) (Some 1) = (Threw NotConnected, closing, [])"
    by simp
  from vibrate_scalars [where n = 3 and c = "Finite 1" and m = None]
  have 4: "scalarsFor 3 (Finite 1) None ! 2 =
     \<lparr> Index = 2, Scalar = Finite 1, ActuatorType_out = ''Vibrate'' \<rparr>"
    by simp
  from vibrate_scalars [where s = "Finite 2"]
  have 5: "\<exists>x. Math_max (Finite 0) (Math_min (Finite 1) (Finite 2)) = Finite x \<and> 0 \<le> x \<and> x \<le> 1"
    by blast
  have 6: "Math_max (Finite 0) (Math_min (Finite 1) (Finite 2)) = Finite 1" by simp
  from h g 1 2 3 4 6 show ?thesis by simp
qed

text \<open>The claim as stated fails: for the strength \<^verbatim>\<open>NaN\<close> the computed strength is \<^verbatim>\<open>NaN\<close>,
  not a number from 0 to 1, and it is what the addressed motor is sent.\<close>

theorem vibrate_nan_counterexample:
  "Math_max (Finite 0) (Math_min (Finite 1) NaN) = NaN \<and>
   sent (world (vibrate connected [] 0 NaN (Some 1))) =
     sent connected @
       [(''ScalarCmd'', 4,
         ScalarList 0
           [\<lparr> Index = 0, Scalar = Finite 0, ActuatorType_out = ''Vibrate'' \<rparr>,
            \<lparr> Index = 1, Scalar = NaN, ActuatorType_out = ''Vibrate'' \<rparr>,
            \<lparr> Index = 2, Scalar = Finite 0, ActuatorType_out = ''Vibrate'' \<rparr>])]"
  using vibrate_connected(2) [of connected 0 _ "\<lparr>motors = 3, steps = [20, 20, 10]\<rparr>" NaN "Some 1"]
  by (simp add: scalarsFor_def upt_rec)

text \<open>
  Claim C1, as amended. Once the readiness wait has returned and the device is in the
  registry, \<open>getBattery\<close> never throws: every failure of the \<^verbatim>\<open>BatteryLevelCmd\<close> request (the
  socket is not open when it is sent, or the server answers with an error, as it does for
  a device without battery support) resolves to \<^verbatim>\<open>null\<close>. When the device is absent from
  the registry it throws the device-not-found error, and an error of the connect attempt
  made by the readiness wait is passed on.
\<close>

theorem getBattery_advisory:
  "(ensureConnected w evs = (Returned u, w1, evs1) \<and> map_of (devices w1) i = Some dev \<longrightarrow>
      (\<forall>e. outcome (getBattery w evs i) \<noteq> Threw e) \<and>
      (\<forall>e. outcome (sendAwait w1 evs1 ''BatteryLevelCmd'' (DeviceTarget i)) = Threw e \<longrightarrow>
           outcome (getBattery w evs i) = Returned Null)) \<and>
   (ensureConnected w evs = (Returned u, w1, evs1) \<and> map_of (devices w1) i = None \<longrightarrow>
      outcome (getBattery w evs i) = Threw (DeviceNotFound i)) \<and>
   (outcome (ensureConnected w evs) = Threw e' \<longrightarrow> outcome (getBattery w evs i) = Threw e')"
proof -
  obtain r2 w2 evs2 where
    s: "sendAwait w1 evs1 ''BatteryLevelCmd'' (DeviceTarget i) = (r2, w2, evs2)"
    by (cases "sendAwait w1 evs1 ''BatteryLevelCmd'' (DeviceTarget i)")
  obtain r3 w3 evs3 where e: "ensureConnected w evs = (r3, w3, evs3)"
    by (cases "ensureConnected w evs")
  have a: "ensureConnected w evs = (Returned u, w1, evs1) \<and> map_of (devices w1) i = Some dev \<longrightarrow>
      (\<forall>e. outcome (getBattery w evs i) \<noteq> Threw e) \<and>
      (\<forall>e. outcome (sendAwait w1 evs1 ''BatteryLevelCmd'' (DeviceTarget i)) = Threw e \<longrightarrow>
           outcome (getBattery w evs i) = Returned Null)"
    using s by (cases r2) (auto simp: getBattery_def outcome_def)
  have b: "ensureConnected w evs = (Returned u, w1, evs1) \<and> map_of (devices w1) i = None \<longrightarrow>
      outcome (getBattery w evs i) = Threw (DeviceNotFound i)"
    by (auto simp: getBattery_def outcome_def)
  have c: "outcome (ensureConnected w evs) = Threw e' \<longrightarrow> outcome (getBattery w evs i) = Threw e'"
    using e by (auto simp: getBattery_def outcome_def)
  from a b c show ?thesis by blast
qed

theorem getBattery_advisory_witness:
  "ensureConnected connected [replyError 4 ''no battery'']
     = (Returned (), connected, [replyError 4 ''no battery'']) \<and>
   map_of (devices connected) 0 \<noteq> None \<and>
   outcome (sendAwait connected [replyError 4 ''no battery''] ''BatteryLevelCmd'' (DeviceTarget 0))
     = Threw (ServerError (Some ''no battery'')) \<and>
   outcome (getBattery connected [replyError 4 ''no battery''] 0) = Returned Null \<and>
   map_of (devices connected) 7 = None \<and>
   outcome (getBattery connected [replyError 4 ''no battery''] 7) = Threw (DeviceNotFound 7) \<and>
   outcome (ensureConnected (initial demoUrl) [EvTimeout 0]) = Threw ConnectionTimeout \<and>
   outcome (getBattery (initial demoUrl) [EvTimeout 0] 0) = Threw ConnectionTimeout"
proof -
  let ?evs = "[replyError 4 ''no battery'']"
  let ?dev = "\<lparr>index = 0, name = ''Demo'',
           capabilities = \<lparr>vibrate_cap = Some \<lparr>motors = 3, steps = [20, 20, 10]\<rparr>,
                            rotate_cap = None, linear_cap = None\<rparr>\<rparr>"
  have h: "ensureConnected connected ?evs = (Returned (), connected, ?evs)"
    "map_of (devices connected) 0 = Some ?dev"
    "outcome (sendAwait connected ?evs ''BatteryLevelCmd'' (DeviceTarget 0))
       = Threw (ServerError (Some ''no battery''))"
    "map_of (devices connected) 7 = None"
    "outcome (ensureConnected (initial demoUrl) [EvTimeout 0]) = Threw ConnectionTimeout"
    by (simp_all add: connected_ready connected_battery_error outcome_def timed_out)
  from getBattery_advisory [of connected ?evs "()" connected ?evs 0 ?dev] h
  have 1: "outcome (getBattery connected ?evs 0) = Returned Null" by blast
  from getBattery_advisory [of connected ?evs "()" connected ?evs 7] h
  have 2: "outcome (getBattery connected ?evs 7) = Threw (DeviceNotFound 7)" by blast
  from getBattery_advisory [of "initial demoUrl" "[EvTimeout 0]" _ _ _ 0 _ ConnectionTimeout] h
  have 3: "outcome (getBattery (initial demoUrl) [EvTimeout 0] 0) = Threw ConnectionTimeout" by blast
  from h 1 2 3 show ?thesis by simp
qed

text \<open>The claim as stated fails: in a connected client whose registry holds device 0 only,
  a battery query for device 1 throws.\<close>

theorem getBattery_throws_counterexample:
  "readyState connected = Some OPEN \<and> map_of (devices connected) 1 = None \<and>
   getBattery connected [] 1 = (Threw (DeviceNotFound 1), connected, [])"
  by (simp add: getBattery_def connected_ready)


section \<open>Claims about the message codec\<close>





section \<open>Claims about the connection manager\<close>

text \<open>The handlers of a socket that is no longer the current one still act on the fields:
  after a timeout and a new attempt, the error event of the first socket resets
  \<open>connectionPromise\<close> and its close event resets \<open>ws\<close>, so the next \<^verbatim>\<open>connect()\<close> makes a
  third attempt while the second is pending.\<close>

lemma retried_attempts:
  "map promise (attempts retried) = [Failed ConnectionTimeout, Pending, Pending] \<and>
   sockets retried = 3 \<and> ws retried = Some 2 \<and> connectionPromise retried = Some 2"
  unfolding retried_def connecting_eq
  by (simp add: run_defs ontimeout_def onerror_def onclose_def closeWs_def closeSocket_def)







text \<open>
  Claim C9. Whenever the socket closes, the registry is emptied, the pending table is
  cleared and the connection state is disconnected again. The code misses the third part
  when the socket closes between its opening and the end of the handshake: the handler of
  the close event does not touch \<open>connectionPromise\<close>, the \<^verbatim>\<open>onopen\<close> handler that would
  reset it is suspended on a reply that cannot come any more, and so the object stays in
  the connecting state, every later \<^verbatim>\<open>connect()\<close> handing out the promise that never
  settles.
\<close>

theorem close_during_handshake:
  "ws (deliver opened [EvClose 0]) = None \<and>
   devices (deliver opened [EvClose 0]) = [] \<and>
   pendingMessages (deliver opened [EvClose 0]) = {} \<and>
   connectionPromise (deliver opened [EvClose 0]) = Some 0 \<and>
   promiseState (deliver opened [EvClose 0]) 0 = Pending \<and>
   stageOf (deliver opened [EvClose 0]) 0 = AwaitServerInfo 1 \<and>
   connectionState (deliver opened [EvClose 0]) = Connecting 0 \<and>
   connect (deliver opened [EvClose 0]) = (SharedPromise 0, deliver opened [EvClose 0]) \<and>
   outcome (awaitPromise (deliver opened [EvClose 0]) 0
              [reply ''ServerInfo'' 1, EvTimeout 0, EvTick])
     = Unsettled"
  by (simp add: opened_eq initial_def run_defs onclose_def connectionState_def isConnected_def
        outcome_def)

end

